theory Spec2Isabelle
  imports Complex_Main "HOL-Library.AList" "HOL-Library.Sublist"
begin

section \<open>Strings and paths\<close>

text \<open>
  Python strings are modelled as \<open>string\<close>: a list of characters, each a code point below
  256 (ASCII and the Latin-1 supplement). \<open>str.lower\<close> maps a character of such a string
  to a character of the same range: the letters \<open>A\<close> to \<open>Z\<close> (65 to 90) and the accented
  capitals 192 to 222, the multiplication sign 215 apart, go to the code point 32 above;
  every other character stays.
\<close>

definition lower_char :: "char \<Rightarrow> char" where
  "lower_char c =
     (let n = (of_char c :: nat)
      in if (65 \<le> n \<and> n \<le> 90) \<or> (192 \<le> n \<and> n \<le> 222 \<and> n \<noteq> 215)
         then char_of (n + 32) else c)"

definition lower :: "string \<Rightarrow> string" where
  "lower s = map lower_char s"

text \<open>\<open>s.replace(".", "-")\<close>: every occurrence of one character replaced by another.\<close>

definition replace_char :: "char \<Rightarrow> char \<Rightarrow> string \<Rightarrow> string" where
  "replace_char a b s = map (\<lambda>c. if c = a then b else c) s"

text \<open>\<open>s.startswith(p)\<close> is \<open>prefix p s\<close>, \<open>s.endswith(p)\<close> is \<open>suffix p s\<close>.\<close>

text \<open>
  \<open>s.split(c, 1)\<close> for a one-character separator: the whole string when the separator
  does not occur, otherwise the text before the first occurrence and the text after it.
\<close>

definition split1 :: "char \<Rightarrow> string \<Rightarrow> string list" where
  "split1 c s =
     (if c \<in> set s
      then [takeWhile (\<lambda>x. x \<noteq> c) s, tl (dropWhile (\<lambda>x. x \<noteq> c) s)]
      else [s])"

text \<open>\<open>s.rfind(c)\<close>, with \<open>None\<close> for Python's \<open>-1\<close>.\<close>

definition rfind :: "char \<Rightarrow> string \<Rightarrow> nat option" where
  "rfind c s =
     (if c \<in> set s
      then Some (length s - 1 - length (takeWhile (\<lambda>x. x \<noteq> c) (rev s)))
      else None)"

text \<open>
  A \<open>PurePosixPath\<close> is held as its \<open>parts\<close>. \<open>posix_parts\<close> is the constructor from a
  string: the root (\<open>/\<close>, or \<open>//\<close> for exactly two leading slashes) is a part of its own,
  and empty segments and \<open>.\<close> segments are dropped.
\<close>

type_synonym posix_path = "string list"

fun split_sep :: "char \<Rightarrow> string \<Rightarrow> string \<Rightarrow> string list" where
  "split_sep c acc [] = [rev acc]"
| "split_sep c acc (x # xs) =
     (if x = c then rev acc # split_sep c [] xs else split_sep c (x # acc) xs)"

definition posix_parts :: "string \<Rightarrow> posix_path" where
  "posix_parts s =
     (let stripped = dropWhile (\<lambda>x. x = CHR ''/'') s;
          n = length s - length stripped;
          root = (if n = 0 then [] else if n = 2 then [''//''] else [''/''])
      in root @ filter (\<lambda>p. p \<noteq> [] \<and> p \<noteq> ''.'') (split_sep CHR ''/'' [] stripped))"

definition is_root :: "string \<Rightarrow> bool" where
  "is_root p = (p = ''/'' \<or> p = ''//'')"

text \<open>\<open>path.name\<close>: the last part, empty for the empty path and for a bare root.\<close>

definition path_name :: "posix_path \<Rightarrow> string" where
  "path_name p = (if p = [] \<or> (length p = 1 \<and> is_root (hd p)) then [] else last p)"

text \<open>\<open>path.parent\<close>: the path without its last part (a bare root is its own parent).\<close>

definition path_parent :: "posix_path \<Rightarrow> posix_path" where
  "path_parent p = (if p = [] \<or> (length p = 1 \<and> is_root (hd p)) then p else butlast p)"

text \<open>
  \<open>path.stem\<close>: the name without its last suffix. A dot in first or last position of the
  name does not start a suffix.
\<close>

definition name_stem :: "string \<Rightarrow> string" where
  "name_stem name =
     (case rfind CHR ''.'' name of
        None \<Rightarrow> name
      | Some i \<Rightarrow> if 0 < i \<and> i < length name - 1 then take i name else name)"

definition stem :: "posix_path \<Rightarrow> string" where
  "stem p = name_stem (path_name p)"

section \<open>Partition parsing\<close>

text \<open>
  \<^verbatim>\<open>return "=" in segment and len(segment.split("=", 1)[0]) > 0\<close>
\<close>

definition is_partition_segment :: "string \<Rightarrow> bool" where
  "is_partition_segment segment =
     (CHR ''='' \<in> set segment \<and> length (hd (split1 CHR ''='' segment)) > 0)"

text \<open>
  The loop of \<open>parse_partitions\<close> over \<open>path.parts\<close>, with the dictionary \<open>parts\<close> as the
  accumulator. The unpacking \<open>key, value = segment.split("=", 1)\<close> is guarded by
  \<open>is_partition_segment\<close>, which makes the split have two elements; the other shapes
  would raise \<open>ValueError\<close> and are \<open>Inl\<close> here.
\<close>

datatype py_error = ValueError | TypeError | AttributeError | KeyError

fun parse_partitions_loop ::
  "(string \<rightharpoonup> string) \<Rightarrow> string list \<Rightarrow> py_error + (string \<rightharpoonup> string)" where
  "parse_partitions_loop parts [] = Inr parts"
| "parse_partitions_loop parts (segment # rest) =
     (if is_partition_segment segment
      then (case split1 CHR ''='' segment of
              [key, val] \<Rightarrow> parse_partitions_loop (parts(key \<mapsto> val)) rest
            | _ \<Rightarrow> Inl ValueError)
      else parse_partitions_loop parts rest)"

definition parse_partitions :: "posix_path \<Rightarrow> py_error + (string \<rightharpoonup> string)" where
  "parse_partitions path = parse_partitions_loop Map.empty path"

text \<open>The key and the value a partition segment is read as.\<close>

definition segment_key :: "string \<Rightarrow> string" where
  "segment_key segment = takeWhile (\<lambda>x. x \<noteq> CHR ''='') segment"

definition segment_value :: "string \<Rightarrow> string" where
  "segment_value segment = tl (dropWhile (\<lambda>x. x \<noteq> CHR ''='') segment)"

section \<open>Floats, bounding boxes and instants\<close>

text \<open>
  A Python float is \<open>NaN\<close> or a number; the numbers are the finite values (reals here:
  comparison, \<open>min\<close> and \<open>max\<close> do not round) and the two infinities, and they are
  linearly ordered. Every comparison with \<open>NaN\<close> is false, so \<open>x != x\<close> holds exactly
  for \<open>NaN\<close>.
\<close>

datatype xfloat = NegInf | Fin real | PosInf

instantiation xfloat :: linorder
begin

fun less_eq_xfloat :: "xfloat \<Rightarrow> xfloat \<Rightarrow> bool" where
  "less_eq_xfloat NegInf y = True"
| "less_eq_xfloat (Fin a) NegInf = False"
| "less_eq_xfloat (Fin a) (Fin b) = (a \<le> b)"
| "less_eq_xfloat (Fin a) PosInf = True"
| "less_eq_xfloat PosInf PosInf = True"
| "less_eq_xfloat PosInf y = False"

definition less_xfloat :: "xfloat \<Rightarrow> xfloat \<Rightarrow> bool" where
  "less_xfloat x y = (x \<le> y \<and> \<not> y \<le> x)"

instance
proof
  fix x y z :: xfloat
  show "(x < y) = (x \<le> y \<and> \<not> y \<le> x)"
    by (simp add: less_xfloat_def)
  show "x \<le> x"
    by (cases x) simp_all
  show "x \<le> y \<Longrightarrow> y \<le> z \<Longrightarrow> x \<le> z"
    by (cases x; cases y; cases z) simp_all
  show "x \<le> y \<Longrightarrow> y \<le> x \<Longrightarrow> x = y"
    by (cases x; cases y) simp_all
  show "x \<le> y \<or> y \<le> x"
    by (cases x; cases y) auto
qed

end

datatype pyfloat = NaN | Num xfloat

text \<open>Python's \<open>a < b\<close>, \<open>a == b\<close> and \<open>a != b\<close> on floats.\<close>

fun py_lt :: "pyfloat \<Rightarrow> pyfloat \<Rightarrow> bool" where
  "py_lt (Num a) (Num b) = (a < b)"
| "py_lt a b = False"

fun py_eq :: "pyfloat \<Rightarrow> pyfloat \<Rightarrow> bool" where
  "py_eq (Num a) (Num b) = (a = b)"
| "py_eq a b = False"

definition py_ne :: "pyfloat \<Rightarrow> pyfloat \<Rightarrow> bool" where
  "py_ne a b = (\<not> py_eq a b)"

text \<open>
  The builtins \<open>min(a, b)\<close> and \<open>max(a, b)\<close>: the first argument unless the second is
  strictly smaller (larger).
\<close>

definition py_min :: "pyfloat \<Rightarrow> pyfloat \<Rightarrow> pyfloat" where
  "py_min a b = (if py_lt b a then b else a)"

definition py_max :: "pyfloat \<Rightarrow> pyfloat \<Rightarrow> pyfloat" where
  "py_max a b = (if py_lt a b then b else a)"

type_synonym bbox = "pyfloat \<times> pyfloat \<times> pyfloat \<times> pyfloat"

text \<open>
  A \<open>datetime\<close> is naive (a wall-clock reading, in microseconds) or aware (a wall-clock
  reading and its offset from UTC). \<open>ensure_utc\<close> reads a naive value as UTC and converts
  an aware one to UTC; the result is given as the UTC instant, which is what aware
  datetimes are compared by.
\<close>

datatype datetime = Naive int | Aware int int

type_synonym instant = int

fun ensure_utc :: "datetime \<Rightarrow> instant" where
  "ensure_utc (Naive wall) = wall"
| "ensure_utc (Aware wall offset) = wall - offset"

section \<open>Asset records and item identifiers\<close>

record AssetRecord =
  relative_path :: posix_path
  partitions :: "string \<rightharpoonup> string"
  bbox :: "bbox option"
  start_dt :: "instant option"
  end_dt :: "instant option"
  row_count :: nat
  primary_geom :: "string option"

text \<open>
  \<open>make_item_id\<close>: the guard \<open>all(k in record.partitions for k in keys)\<close> and the four
  lookups it protects are one case distinction on the four entries.
\<close>

definition make_item_id :: "AssetRecord \<Rightarrow> string" where
  "make_item_id r =
     (case (partitions r ''year'', partitions r ''month'', partitions r ''day'',
            partitions r ''hour'') of
        (Some y, Some m, Some d, Some h) \<Rightarrow> y @ m @ d @ ''T'' @ h
      | _ \<Rightarrow> lower (replace_char CHR ''.'' CHR ''-'' (stem (relative_path r))))"

section \<open>Plot classification\<close>

text \<open>
  The regular expression
  \<^verbatim>\<open>^variogram_(?P<component>[uv])(?P<variant>_rkt)?_empirical_\<close>
  matched at the start of the name: the component letter and whether the optional group
  took part in the match. The two continuations start differently, so at most one
  applies.
\<close>

definition match_plot_variogram :: "string \<Rightarrow> (char \<times> bool) option" where
  "match_plot_variogram name =
     (if prefix ''variogram_'' name
      then (case drop (length ''variogram_'') name of
              [] \<Rightarrow> None
            | c # rest \<Rightarrow>
                if c = CHR ''u'' \<or> c = CHR ''v''
                then (if prefix ''_rkt_empirical_'' rest then Some (c, True)
                      else if prefix ''_empirical_'' rest then Some (c, False)
                      else None)
                else None)
      else None)"

definition component_label :: "char \<Rightarrow> string" where
  "component_label c =
     (if c = CHR ''u'' then ''zonal (u) wind component''
      else if c = CHR ''v'' then ''meridional (v) wind component''
      else [c])"

definition grid_mesh_description :: string where
  "grid_mesh_description =
     ''Scatter map generated by wind_interpolation.R that shows the interpolation mesh in '' @
     ''WGS 84: interpolated nodes, original MeteoGalicia observations (drawn on top), and '' @
     ''optional test points created in grid_module.R.''"

definition rkt_description :: "char \<Rightarrow> string" where
  "rkt_description c =
     ''Empirical semivariogram of the regression-kriging residuals for the '' @
     component_label c @ '', '' @
     ''generated in regression_kriging() and saved by save_variogram_plot() '' @
     ''inside scripts/modules/interpolation_module.R using terrain (topo) as external drift.''"

definition ok_description :: "char \<Rightarrow> string" where
  "ok_description c =
     ''Empirical semivariogram for the '' @ component_label c @
     '' produced during ordinary kriging calibration; '' @
     ''save_variogram_plot() (scripts/modules/interpolation_module.R) overlays the model selected by cross-validation.''"

text \<open>
  \<open>describe_plot_asset\<close>: the description, if any, and the properties in insertion
  order.
\<close>

definition describe_plot_asset :: "string \<Rightarrow> string option \<times> (string \<times> string) list" where
  "describe_plot_asset filename =
     (let name = lower filename in
      if prefix ''grid_points'' name
      then (Some grid_mesh_description, [(''plot_type'', ''grid-mesh'')])
      else (case match_plot_variogram name of
              Some (component, variant) \<Rightarrow>
                if variant
                then (Some (rkt_description component),
                      [(''plot_type'', ''variogram''), (''plot_component'', [component]),
                       (''plot_variant'', ''regression-kriging'')])
                else (Some (ok_description component),
                      [(''plot_type'', ''variogram''), (''plot_component'', [component]),
                       (''plot_variant'', ''ordinary-kriging'')])
            | None \<Rightarrow> (None, [])))"

section \<open>Override documents\<close>

text \<open>
  What \<open>json.loads\<close> returns and \<open>to_dict\<close> builds: a tree of maps, arrays and scalars. A
  map is an association list in insertion order; \<open>d[k] = v\<close> is \<open>AList.update\<close>, which
  replaces the value of a key in place and appends a new key at the end.
\<close>

datatype json =
    JNull
  | JBool bool
  | JInt int
  | JFloat real
  | JStr string
  | JArr "json list"
  | JObj "(string \<times> json) list"

type_synonym pydict = "(string \<times> json) list"

text \<open>
  \<open>deep_merge_dict\<close>: \<open>result\<close> starts as a copy of \<open>base\<close> and the loop over
  \<open>extra.items()\<close> updates it, so the first argument is the running \<open>result\<close>.
\<close>

fun deep_merge_dict :: "pydict \<Rightarrow> pydict \<Rightarrow> pydict" where
  "deep_merge_dict result [] = result"
| "deep_merge_dict result ((key, val) # extra) =
     deep_merge_dict
       (AList.update key
          (case (map_of result key, val) of
             (Some (JObj b), JObj e) \<Rightarrow> JObj (deep_merge_dict b e)
           | _ \<Rightarrow> val)
          result)
       extra"

text \<open>Sequencing of steps that may raise.\<close>

definition bind_err :: "'e + 'a \<Rightarrow> ('a \<Rightarrow> 'e + 'b) \<Rightarrow> 'e + 'b" where
  "bind_err m f = (case m of Inl e \<Rightarrow> Inl e | Inr x \<Rightarrow> f x)"

text \<open>
  The dynamically typed operations the override code applies to values of the tree:
  \<open>d.get("assets", {})\<close>, \<open>x.items()\<close>, \<open>asset.get("href")\<close> (with \<open>JNull\<close> for Python's
  \<open>None\<close>), \<open>key in x\<close>, \<open>x[key]\<close> and \<open>x["href"] = href\<close>.
\<close>

definition get_assets :: "pydict \<Rightarrow> json" where
  "get_assets d = (case map_of d ''assets'' of None \<Rightarrow> JObj [] | Some v \<Rightarrow> v)"

fun py_items :: "json \<Rightarrow> py_error + pydict" where
  "py_items (JObj kvs) = Inr kvs"
| "py_items v = Inl AttributeError"

fun py_get_href :: "json \<Rightarrow> py_error + json" where
  "py_get_href (JObj kvs) = Inr (case map_of kvs ''href'' of None \<Rightarrow> JNull | Some v \<Rightarrow> v)"
| "py_get_href v = Inl AttributeError"

fun py_contains :: "string \<Rightarrow> json \<Rightarrow> py_error + bool" where
  "py_contains key (JObj kvs) = Inr (key \<in> fst ` set kvs)"
| "py_contains key (JArr xs) = Inr (JStr key \<in> set xs)"
| "py_contains key (JStr s) = Inr (sublist key s)"
| "py_contains key v = Inl TypeError"

fun py_getitem :: "json \<Rightarrow> string \<Rightarrow> py_error + json" where
  "py_getitem (JObj kvs) key = (case map_of kvs key of None \<Rightarrow> Inl KeyError | Some v \<Rightarrow> Inr v)"
| "py_getitem v key = Inl TypeError"

fun py_setitem :: "json \<Rightarrow> string \<Rightarrow> json \<Rightarrow> py_error + json" where
  "py_setitem (JObj kvs) key v = Inr (JObj (AList.update key v kvs))"
| "py_setitem x key v = Inl TypeError"

text \<open>
  \<^verbatim>\<open>original_asset_hrefs = {key: asset.get("href") for key, asset in
      base_dict.get("assets", {}).items()}\<close>
\<close>

fun asset_hrefs :: "pydict \<Rightarrow> py_error + pydict" where
  "asset_hrefs [] = Inr []"
| "asset_hrefs ((key, asset) # rest) =
     bind_err (py_get_href asset) (\<lambda>href.
     bind_err (asset_hrefs rest) (\<lambda>hs. Inr ((key, href) # hs)))"

definition original_asset_hrefs :: "pydict \<Rightarrow> py_error + pydict" where
  "original_asset_hrefs base_dict = bind_err (py_items (get_assets base_dict)) asset_hrefs"

text \<open>
  The loop that puts a generated \<open>href\<close> back:
  \<^verbatim>\<open>for key, href in original_asset_hrefs.items():
    if key in merged_dict.get("assets", {}) and "href" not in merged_dict["assets"][key]
       and href is not None:
        merged_dict["assets"][key]["href"] = href\<close>
  The conditions are evaluated left to right and stop at the first false one.
\<close>

fun restore_hrefs :: "pydict \<Rightarrow> pydict \<Rightarrow> py_error + pydict" where
  "restore_hrefs merged_dict [] = Inr merged_dict"
| "restore_hrefs merged_dict ((key, href) # rest) =
     bind_err (py_contains key (get_assets merged_dict)) (\<lambda>present.
       if \<not> present then restore_hrefs merged_dict rest
       else
         bind_err (py_getitem (get_assets merged_dict) key) (\<lambda>asset.
         bind_err (py_contains ''href'' asset) (\<lambda>has_href.
           if has_href \<or> href = JNull then restore_hrefs merged_dict rest
           else
             bind_err (py_setitem asset ''href'' href) (\<lambda>asset'.
             bind_err (py_setitem (get_assets merged_dict) key asset') (\<lambda>assets'.
               restore_hrefs (AList.update ''assets'' assets' merged_dict) rest)))))"

text \<open>
  The override block of the builder, from \<open>base_dict\<close> (the item's \<open>to_dict\<close>) to the
  \<open>merged_dict\<close> handed to \<open>Item.from_dict\<close>.
\<close>

definition apply_item_overrides :: "pydict \<Rightarrow> pydict \<Rightarrow> py_error + pydict" where
  "apply_item_overrides base_dict item_overrides =
     bind_err (original_asset_hrefs base_dict) (\<lambda>hrefs.
       restore_hrefs (deep_merge_dict base_dict item_overrides) hrefs)"

text \<open>A map read from JSON has each key once.\<close>

definition unique_keys :: "pydict \<Rightarrow> bool" where
  "unique_keys d = distinct (map fst d)"

section \<open>The collection extent accumulator\<close>

text \<open>
  \<open>merge_bbox\<close>, with the builtins \<open>min\<close> and \<open>max\<close> on each coordinate.
\<close>

fun merge_bbox :: "bbox option \<Rightarrow> bbox option \<Rightarrow> bbox option" where
  "merge_bbox None b = b"
| "merge_bbox (Some a) None = Some a"
| "merge_bbox (Some (a0, a1, a2, a3)) (Some (b0, b1, b2, b3)) =
     Some (py_min a0 b0, py_min a1 b1, py_max a2 b2, py_max a3 b3)"

text \<open>
  The part of a collection that \<open>update_collection_extent\<close> reads and writes:
  \<open>extent.spatial.bboxes[0]\<close> and the two ends of \<open>extent.temporal.intervals[0]\<close>.
\<close>

record extent =
  spatial :: bbox
  temporal_start :: "instant option"
  temporal_end :: "instant option"

text \<open>
  \<open>create_collection\<close> starts the accumulator with the placeholder \<open>[float("nan")] * 4\<close>
  and the interval given on the command line, if any.
\<close>

definition nan_bbox :: bbox where
  "nan_bbox = (NaN, NaN, NaN, NaN)"

definition create_extent :: "instant option \<Rightarrow> instant option \<Rightarrow> extent" where
  "create_extent start_override end_override =
     \<lparr>spatial = nan_bbox, temporal_start = start_override, temporal_end = end_override\<rparr>"

text \<open>
  \<open>update_collection_extent\<close>. A bounding box is a 4-tuple, which is true in a condition,
  so \<open>if bbox:\<close> tests for \<open>None\<close>; a \<open>datetime\<close> is true as well. \<open>merge_bbox\<close> of two
  boxes is a box, so its \<open>None\<close> case is not reached.
\<close>

definition update_collection_extent ::
  "extent \<Rightarrow> bbox option \<Rightarrow> datetime option \<Rightarrow> datetime option \<Rightarrow> extent" where
  "update_collection_extent ext box start end_dt0 =
     (let existing = spatial ext;
          spatial' =
            (case box of
               None \<Rightarrow> existing
             | Some b \<Rightarrow>
                 if py_ne (fst existing) (fst existing) then b
                 else (case merge_bbox (Some existing) (Some b) of
                         Some m \<Rightarrow> m
                       | None \<Rightarrow> existing));
          start' = map_option ensure_utc start;
          end' = map_option ensure_utc end_dt0;
          t0 = (case start' of
                  None \<Rightarrow> temporal_start ext
                | Some s \<Rightarrow>
                    (case temporal_start ext of
                       None \<Rightarrow> Some s
                     | Some t \<Rightarrow> if s < t then Some s else Some t));
          t1 = (case end' of
                  None \<Rightarrow> temporal_end ext
                | Some e \<Rightarrow>
                    (case temporal_end ext of
                       None \<Rightarrow> Some e
                     | Some t \<Rightarrow> if e > t then Some e else Some t))
      in \<lparr>spatial = spatial', temporal_start = t0, temporal_end = t1\<rparr>)"

text \<open>One item folded in: its bounding box, start and end.\<close>

type_synonym item_extent = "bbox option \<times> datetime option \<times> datetime option"

definition fold_extent :: "extent \<Rightarrow> item_extent list \<Rightarrow> extent" where
  "fold_extent ext items =
     foldl (\<lambda>e (b, s, t). update_collection_extent e b s t) ext items"

text \<open>A bounding box without \<open>NaN\<close>, and its four coordinates.\<close>

type_synonym num_bbox = "xfloat \<times> xfloat \<times> xfloat \<times> xfloat"

fun of_num_bbox :: "num_bbox \<Rightarrow> bbox" where
  "of_num_bbox (a, b, c, d) = (Num a, Num b, Num c, Num d)"

fun min_x :: "num_bbox \<Rightarrow> xfloat" where "min_x (a, b, c, d) = a"
fun min_y :: "num_bbox \<Rightarrow> xfloat" where "min_y (a, b, c, d) = b"
fun max_x :: "num_bbox \<Rightarrow> xfloat" where "max_x (a, b, c, d) = c"
fun max_y :: "num_bbox \<Rightarrow> xfloat" where "max_y (a, b, c, d) = d"

text \<open>
  The union the specification describes: coordinate-wise minimum and maximum over the
  boxes that are present, and the placeholder when there is none.
\<close>

definition bbox_union :: "num_bbox option list \<Rightarrow> bbox" where
  "bbox_union boxes =
     (let present = List.map_filter id boxes in
      if present = [] then nan_bbox
      else of_num_bbox (Min (min_x ` set present), Min (min_y ` set present),
                        Max (max_x ` set present), Max (max_y ` set present)))"

section \<open>Reading a Parquet file\<close>

text \<open>
  What the builder reads of a Parquet file: the column names of its schema and, for each
  row group, the cells of each column. A column of the schema has one cell per row of
  the row group.
\<close>

datatype cell = CNull | CFloat pyfloat | CDatetime datetime | CStr string | COther

record parquet_file =
  schema_names :: "string list"
  row_groups :: "(string \<Rightarrow> cell list) list"

text \<open>
  \<open>float(arr.min())\<close> and \<open>float(arr.max())\<close> of a column read as a numpy array are
  numpy's and Python's own: for a non-empty array they give a float or raise, depending
  on the type and the values of the column. They are parameters of the scan
  (\<open>array_min\<close>, \<open>array_max\<close>). The array of a column has one element per cell, so its
  \<open>size\<close> is the number of cells.
\<close>

type_synonym array_reduce = "cell list \<Rightarrow> py_error + pyfloat"

definition float_inf :: pyfloat where
  "float_inf = Num PosInf"

definition float_neg_inf :: pyfloat where
  "float_neg_inf = Num NegInf"

text \<open>
  The loop of \<open>scan_lon_lat_bbox\<close> over the row groups, the running
  \<open>(min_lon, min_lat, max_lon, max_lat)\<close> as the accumulator. A row group with an empty
  array is skipped by \<open>continue\<close> before any minimum or maximum is taken; otherwise the
  four updates run in the order of the source, and the first that raises ends the scan.
\<close>

fun scan_row_groups ::
  "array_reduce \<Rightarrow> array_reduce \<Rightarrow> string \<Rightarrow> string \<Rightarrow> bbox \<Rightarrow>
     (string \<Rightarrow> cell list) list \<Rightarrow> py_error + bbox" where
  "scan_row_groups array_min array_max lon_col lat_col acc [] = Inr acc"
| "scan_row_groups array_min array_max lon_col lat_col (min_lon, min_lat, max_lon, max_lat)
     (rg # rgs) =
     (let lon_arr = rg lon_col; lat_arr = rg lat_col in
      if lon_arr = [] \<or> lat_arr = []
      then scan_row_groups array_min array_max lon_col lat_col
             (min_lon, min_lat, max_lon, max_lat) rgs
      else
        bind_err (array_min lon_arr) (\<lambda>lon_lo.
        bind_err (array_max lon_arr) (\<lambda>lon_hi.
        bind_err (array_min lat_arr) (\<lambda>lat_lo.
        bind_err (array_max lat_arr) (\<lambda>lat_hi.
          scan_row_groups array_min array_max lon_col lat_col
            (py_min min_lon lon_lo, py_min min_lat lat_lo,
             py_max max_lon lon_hi, py_max max_lat lat_hi) rgs)))))"

definition scan_lon_lat_bbox ::
  "array_reduce \<Rightarrow> array_reduce \<Rightarrow> parquet_file \<Rightarrow> py_error + bbox option" where
  "scan_lon_lat_bbox array_min array_max pf =
     (case (find (\<lambda>col. col \<in> set (schema_names pf)) [''lon'', ''longitude'', ''x''],
            find (\<lambda>col. col \<in> set (schema_names pf)) [''lat'', ''latitude'', ''y'']) of
        (Some lon_col, Some lat_col) \<Rightarrow>
          bind_err
            (scan_row_groups array_min array_max lon_col lat_col
               (float_inf, float_inf, float_neg_inf, float_neg_inf) (row_groups pf))
            (\<lambda>(min_lon, min_lat, max_lon, max_lat).
               if py_eq min_lon float_inf \<or> py_eq min_lat float_inf then Inr None
               else Inr (Some (min_lon, min_lat, max_lon, max_lat)))
      | _ \<Rightarrow> Inr None)"

section \<open>Temporal bounds\<close>

text \<open>
  \<open>parse_datetime\<close>: a trailing \<open>Z\<close> is rewritten to \<open>+00:00\<close>, the string goes through
  \<open>datetime.fromisoformat\<close> (the standard library's parser, a parameter here; \<open>None\<close>
  when it raises \<open>ValueError\<close>) and the result is normalised to UTC.
\<close>

definition parse_datetime :: "(string \<Rightarrow> datetime option) \<Rightarrow> string \<Rightarrow> instant option" where
  "parse_datetime fromisoformat v =
     map_option ensure_utc
       (fromisoformat (if suffix ''Z'' v then butlast v @ ''+00:00'' else v))"

text \<open>
  \<open>parse_array\<close>: nulls are skipped, datetimes normalised, strings parsed and skipped
  when the parser raises; a value of another type matches no branch.
\<close>

fun parse_array :: "(string \<Rightarrow> datetime option) \<Rightarrow> cell list \<Rightarrow> instant list" where
  "parse_array fromisoformat [] = []"
| "parse_array fromisoformat (CDatetime d # arr) = ensure_utc d # parse_array fromisoformat arr"
| "parse_array fromisoformat (CStr s # arr) =
     (case parse_datetime fromisoformat s of
        Some t \<Rightarrow> t # parse_array fromisoformat arr
      | None \<Rightarrow> parse_array fromisoformat arr)"
| "parse_array fromisoformat (c # arr) = parse_array fromisoformat arr"

definition col_candidates :: "string list list" where
  "col_candidates =
     [[''timestamp''], [''datetime''], [''time''], [''date''],
      [''start_datetime'', ''end_datetime'']]"

text \<open>
  \<open>read_row_groups\<close> of all row groups for one column, as \<open>to_pylist\<close> gives it.
\<close>

definition read_column :: "parquet_file \<Rightarrow> string \<Rightarrow> cell list" where
  "read_column pf col = concat (map (\<lambda>rg. rg col) (row_groups pf))"

text \<open>
  The loop over \<open>present\<close>: a candidate of two names is read as a start and an end
  column, any other through its first name; the first candidate with parsed values
  returns. \<open>min\<close> and \<open>max\<close> of a non-empty list are folds from its first element.
\<close>

fun bounds_loop ::
  "(string \<Rightarrow> datetime option) \<Rightarrow> parquet_file \<Rightarrow> string list list \<Rightarrow>
     instant option \<times> instant option" where
  "bounds_loop fromisoformat pf [] = (None, None)"
| "bounds_loop fromisoformat pf ([first_col, last_col] # rest) =
     (case (parse_array fromisoformat (read_column pf first_col),
            parse_array fromisoformat (read_column pf last_col)) of
        (f # fs, l # ls) \<Rightarrow> (Some (fold min fs f), Some (fold max ls l))
      | _ \<Rightarrow> bounds_loop fromisoformat pf rest)"
| "bounds_loop fromisoformat pf ((col # others) # rest) =
     (case parse_array fromisoformat (read_column pf col) of
        v # vs \<Rightarrow> (Some (fold min vs v), Some (fold max vs v))
      | [] \<Rightarrow> bounds_loop fromisoformat pf rest)"
| "bounds_loop fromisoformat pf ([] # rest) = bounds_loop fromisoformat pf rest"

definition read_timestamp_bounds ::
  "(string \<Rightarrow> datetime option) \<Rightarrow> parquet_file \<Rightarrow> instant option \<times> instant option" where
  "read_timestamp_bounds fromisoformat pf =
     (let present = filter (\<lambda>candidate. list_all (\<lambda>name. name \<in> set (schema_names pf)) candidate)
                           col_candidates
      in bounds_loop fromisoformat pf present)"

section \<open>The builder\<close>

text \<open>
  \<open>build_items_and_collection\<close>, as far as identifiers, byte copies and fatal exits go.
  What the run reads from outside is gathered in \<open>build_env\<close>:
  \<^item> the \<open>--incremental\<close> flag, and whether the input root is a directory;
  \<^item> \<open>records\<close>, the sorted result of \<open>discover_assets\<close>;
  \<^item> whether \<open>--metadata-prefix\<close> and \<open>--plots-prefix\<close> are given;
  \<^item> \<open>copy_from_fs\<close>, the outcome of copying one file (its kind and its path relative to
    the tree it comes from);
  \<^item> \<open>plot_infos\<close>, the listing of a plot directory: for each entry whether it is a file,
    and its name (the empty list when the listing raises);
  \<^item> \<open>override_id\<close>, the string the item-override document puts under the key \<open>id\<close>, if
    it does: \<open>deep_merge_dict\<close> replaces the generated \<open>id\<close> by it, and
    \<open>Item.from_dict\<close> builds the item from the merged tree.
  The geometry, properties, links and hrefs of the items are not part of this model, nor
  is the extent accumulator, which is modelled on its own above.
\<close>

datatype asset_kind = DataAsset | MetadataAsset | PlotAsset

record build_env =
  incremental :: bool
  root_is_directory :: bool
  records :: "AssetRecord list"
  metadata_prefix :: bool
  plots_prefix :: bool
  copy_from_fs :: "asset_kind \<Rightarrow> posix_path \<Rightarrow> bool"
  plot_infos :: "posix_path \<Rightarrow> (bool \<times> string) list"
  override_id :: "string option"

text \<open>The three \<open>sys.exit\<close> calls of the builder.\<close>

datatype fatal = NotADirectory | NoAssets | CopyFailed posix_path

text \<open>
  The state the loop over the records mutates: the items of the three sub-catalogs (by
  identifier, in the order they were added), the three sets of known identifiers, and
  the copies attempted so far with their outcome.
\<close>

record build_state =
  parquet_catalog :: "string list"
  metadata_catalog :: "string list"
  plots_catalog :: "string list"
  existing_parquet_ids :: "string set"
  existing_metadata_ids :: "string set"
  existing_plot_ids :: "string set"
  copy_log :: "(asset_kind \<times> posix_path \<times> bool) list"

text \<open>
  What a finished run leaves under \<open>items/parquet\<close>, \<open>items/metadata\<close> and \<open>items/plots\<close>,
  as \<open>load_existing_items\<close> reads it back: the identifiers of the items of each
  sub-catalog. A sub-catalog that is missing or cannot be parsed reads as the empty
  list.
\<close>

record persisted =
  parquet_item_ids :: "string list"
  metadata_item_ids :: "string list"
  plot_item_ids :: "string list"

definition persist :: "build_state \<Rightarrow> persisted" where
  "persist st =
     \<lparr>parquet_item_ids = parquet_catalog st, metadata_item_ids = metadata_catalog st,
      plot_item_ids = plots_catalog st\<rparr>"

text \<open>
  The state before the loop: with \<open>--incremental\<close> every loaded item is added back to its
  sub-catalog and its identifier to the known set; otherwise everything is empty.
\<close>

definition initial_state :: "build_env \<Rightarrow> persisted \<Rightarrow> build_state" where
  "initial_state env p =
     (if incremental env
      then \<lparr>parquet_catalog = parquet_item_ids p, metadata_catalog = metadata_item_ids p,
            plots_catalog = plot_item_ids p,
            existing_parquet_ids = set (parquet_item_ids p),
            existing_metadata_ids = set (metadata_item_ids p),
            existing_plot_ids = set (plot_item_ids p), copy_log = []\<rparr>
      else \<lparr>parquet_catalog = [], metadata_catalog = [], plots_catalog = [],
            existing_parquet_ids = {}, existing_metadata_ids = {},
            existing_plot_ids = {}, copy_log = []\<rparr>)"

text \<open>The identifier of an item after the override block.\<close>

definition final_id :: "build_env \<Rightarrow> string \<Rightarrow> string" where
  "final_id env generated = (case override_id env of None \<Rightarrow> generated | Some s \<Rightarrow> s)"

definition log_copy :: "asset_kind \<Rightarrow> posix_path \<Rightarrow> bool \<Rightarrow> build_state \<Rightarrow> build_state" where
  "log_copy kind path ok st = st\<lparr>copy_log := copy_log st @ [(kind, path, ok)]\<rparr>"

text \<open>
  The metadata block: nothing without a metadata prefix; a known identifier is passed
  over; otherwise the sidecar \<open>metadata.json\<close> beside the asset is copied, and the item
  is created only when the copy succeeds. The known set receives \<open>metadata_item.id\<close>.
\<close>

definition process_metadata :: "build_env \<Rightarrow> AssetRecord \<Rightarrow> string \<Rightarrow> build_state \<Rightarrow> build_state" where
  "process_metadata env r item_id st =
     (if \<not> metadata_prefix env then st
      else
        let metadata_rel = path_parent (relative_path r) @ [''metadata.json''];
            metadata_item_id = item_id @ ''-metadata''
        in if incremental env \<and> metadata_item_id \<in> existing_metadata_ids st then st
           else if copy_from_fs env MetadataAsset metadata_rel
           then (log_copy MetadataAsset metadata_rel True st)
                  \<lparr>metadata_catalog := metadata_catalog st @ [final_id env metadata_item_id],
                   existing_metadata_ids :=
                     insert (final_id env metadata_item_id) (existing_metadata_ids st)\<rparr>
           else log_copy MetadataAsset metadata_rel False st)"

text \<open>
  The properties a plot item is created with: its file name, the description when
  there is one, and the classification.
\<close>

definition plot_item_properties :: "string \<Rightarrow> (string \<times> string) list" where
  "plot_item_properties plot_filename =
     (case describe_plot_asset plot_filename of
        (plot_description, plot_props) \<Rightarrow>
          (''plot_name'', plot_filename) #
          (case plot_description of None \<Rightarrow> [] | Some d \<Rightarrow> [(''plot_description'', d)]) @
          plot_props)"

text \<open>
  The loop over the entries of the plot directory: entries that are not files or do not
  end in \<open>.png\<close> are passed over, a failed copy is passed over, and a plot whose
  identifier is known is passed over after its copy. The known set receives
  \<open>plot_item.id\<close>.
\<close>

fun process_plots ::
  "build_env \<Rightarrow> AssetRecord \<Rightarrow> string \<Rightarrow> (bool \<times> string) list \<Rightarrow> build_state \<Rightarrow> build_state" where
  "process_plots env r item_id [] st = st"
| "process_plots env r item_id ((is_file, name) # infos) st =
     (if \<not> is_file then process_plots env r item_id infos st
      else if \<not> suffix ''.png'' (lower name) then process_plots env r item_id infos st
      else
        let rel_plot = path_parent (relative_path r) @ [name] in
        if \<not> copy_from_fs env PlotAsset rel_plot
        then process_plots env r item_id infos (log_copy PlotAsset rel_plot False st)
        else
          let st1 = log_copy PlotAsset rel_plot True st;
              plot_item_id = item_id @ ''-plot-'' @ name_stem name
          in if incremental env \<and> plot_item_id \<in> existing_plot_ids st1
             then process_plots env r item_id infos st1
             else process_plots env r item_id infos
                    (st1\<lparr>plots_catalog := plots_catalog st1 @ [final_id env plot_item_id],
                         existing_plot_ids :=
                           insert (final_id env plot_item_id) (existing_plot_ids st1)\<rparr>))"

text \<open>
  One round of the loop over the records. A known identifier is passed over by
  \<open>continue\<close> before anything else is done; a failed copy of the asset is
  \<open>sys.exit\<close>. The known set receives the generated \<open>item_id\<close>, the catalog the item
  built after the override block.
\<close>

definition process_record :: "build_env \<Rightarrow> build_state \<Rightarrow> AssetRecord \<Rightarrow> fatal + build_state" where
  "process_record env st r =
     (let item_id = make_item_id r in
      if incremental env \<and> item_id \<in> existing_parquet_ids st then Inr st
      else if \<not> copy_from_fs env DataAsset (relative_path r)
      then Inl (CopyFailed (relative_path r))
      else
        let st1 = (log_copy DataAsset (relative_path r) True st)
                    \<lparr>parquet_catalog := parquet_catalog st @ [final_id env item_id],
                     existing_parquet_ids := insert item_id (existing_parquet_ids st)\<rparr>;
            st2 = process_metadata env r item_id st1;
            st3 = (if plots_prefix env
                   then process_plots env r item_id
                          (plot_infos env (path_parent (relative_path r))) st2
                   else st2)
        in Inr st3)"

fun process_records :: "build_env \<Rightarrow> build_state \<Rightarrow> AssetRecord list \<Rightarrow> fatal + build_state" where
  "process_records env st [] = Inr st"
| "process_records env st (r # rs) =
     bind_err (process_record env st r) (\<lambda>st'. process_records env st' rs)"

definition build_items_and_collection :: "build_env \<Rightarrow> persisted \<Rightarrow> fatal + build_state" where
  "build_items_and_collection env p =
     (if \<not> root_is_directory env then Inl NotADirectory
      else if records env = [] then Inl NoAssets
      else process_records env (initial_state env p) (records env))"

section \<open>Notions of the statements and example inputs\<close>

definition example_path :: posix_path where
  "example_path = [''year=2025'', ''month=01'', ''day=02'', ''hour=03'', ''data.parquet'']"

definition example_record :: AssetRecord where
  "example_record =
     \<lparr>relative_path = example_path,
      partitions = [''year'' \<mapsto> ''2025'', ''month'' \<mapsto> ''01'', ''day'' \<mapsto> ''02'',
                    ''hour'' \<mapsto> ''03''],
      bbox = None, start_dt = None, end_dt = None, row_count = 0, primary_geom = None\<rparr>"

definition unpartitioned_record :: AssetRecord where
  "unpartitioned_record =
     \<lparr>relative_path = [''year=2025'', ''Winds.V2.parquet''],
      partitions = [''year'' \<mapsto> ''2025''],
      bbox = None, start_dt = None, end_dt = None, row_count = 0, primary_geom = None\<rparr>"

text \<open>A file at the top of the source tree, named \<open>name\<close>, with no partition coordinates.\<close>

definition named_record :: "string \<Rightarrow> AssetRecord" where
  "named_record name =
     \<lparr>relative_path = [name], partitions = Map.empty,
      bbox = None, start_dt = None, end_dt = None, row_count = 0, primary_geom = None\<rparr>"

text \<open>
  The specification's pattern \<open>variogram_<component>[_rkt]_empirical_*\<close> for a component
  letter and the presence of the \<open>_rkt\<close> marker, read on the lower-cased name as the
  classifier reads it.
\<close>

definition variogram_name :: "char \<Rightarrow> bool \<Rightarrow> string \<Rightarrow> bool" where
  "variogram_name c rkt name =
     prefix (''variogram_'' @ [c] @ (if rkt then ''_rkt'' else []) @ ''_empirical_'') name"

definition plots_env :: build_env where
  "plots_env =
     \<lparr>incremental = True, root_is_directory = True, records = [example_record],
      metadata_prefix = False, plots_prefix = True,
      copy_from_fs = (\<lambda>kind path. True),
      plot_infos = (\<lambda>dir. [(True, ''notes.png'')]),
      override_id = None\<rparr>"

definition empty_state :: build_state where
  "empty_state =
     \<lparr>parquet_catalog = [], metadata_catalog = [], plots_catalog = [],
      existing_parquet_ids = {}, existing_metadata_ids = {}, existing_plot_ids = {},
      copy_log = []\<rparr>"

text \<open>
  Reading an item tree: the \<open>href\<close> of the asset stored under a key, when the tree has
  an \<open>assets\<close> map with a map under that key; whether a value is a map; and whether
  the assets of a tree are all maps, as \<open>to_dict\<close> writes them.
\<close>

definition asset_href :: "pydict \<Rightarrow> string \<Rightarrow> json option" where
  "asset_href d key =
     (case map_of d ''assets'' of
        Some (JObj assets) \<Rightarrow>
          (case map_of assets key of Some (JObj entries) \<Rightarrow> map_of entries ''href'' | _ \<Rightarrow> None)
      | _ \<Rightarrow> None)"

fun is_obj :: "json \<Rightarrow> bool" where
  "is_obj (JObj kvs) = True"
| "is_obj v = False"

definition assets_are_objects :: "pydict \<Rightarrow> bool" where
  "assets_are_objects d =
     (case get_assets d of JObj assets \<Rightarrow> list_all is_obj (map snd assets) | _ \<Rightarrow> False)"

definition generated_item :: pydict where
  "generated_item =
     [(''type'', JStr ''Feature''), (''id'', JStr ''20250102T03''),
      (''properties'', JObj [(''row_count'', JInt 10)]),
      (''assets'', JObj [(''data'',
         JObj [(''href'', JStr ''../../../assets/parquet/data.parquet''),
               (''type'', JStr ''application/vnd.apache.parquet''),
               (''title'', JStr ''Interpolated winds GeoParquet''),
               (''roles'', JArr [JStr ''data''])])])]"

definition title_override :: pydict where
  "title_override =
     [(''properties'', JObj [(''x'', JInt 1)]),
      (''assets'', JObj [(''data'', JObj [(''title'', JStr ''Winds''),
                                           (''roles'', JArr [JStr ''primary''])])])]"

text \<open>An item as it is folded into the accumulator, with a bounding box free of \<open>NaN\<close>.\<close>

fun lift_item :: "num_bbox option \<times> datetime option \<times> datetime option \<Rightarrow> item_extent" where
  "lift_item (b, s, t) = (map_option of_num_bbox b, s, t)"

definition empty_parquet :: parquet_file where
  "empty_parquet =
     \<lparr>schema_names = [''node_id'', ''x'', ''y'', ''u''],
      row_groups = [(\<lambda>col. []), (\<lambda>col. [])]\<rparr>"

definition two_partitions :: "(num_bbox option \<times> datetime option \<times> datetime option) list" where
  "two_partitions =
     [(Some (Fin 0, Fin 0, Fin 1, Fin 1), Some (Naive 10), Some (Naive 20)),
      (None, None, None),
      (Some (Fin 1, Fin 1, Fin 2, Fin 2), Some (Aware 8 3), Some (Aware 33 3))]"

definition unit_extent :: extent where
  "unit_extent =
     \<lparr>spatial = of_num_bbox (Fin 0, Fin 0, Fin 1, Fin 1),
      temporal_start = Some 10, temporal_end = Some 20\<rparr>"

text \<open>
  A candidate is usable in a file when its columns are in the schema and each has at
  least one value that parses.
\<close>

definition usable :: "(string \<Rightarrow> datetime option) \<Rightarrow> parquet_file \<Rightarrow> string list \<Rightarrow> bool" where
  "usable fromisoformat pf names =
     (list_all (\<lambda>name. name \<in> set (schema_names pf)) names \<and> names \<noteq> [] \<and>
      list_all (\<lambda>name. parse_array fromisoformat (read_column pf name) \<noteq> [])
               (if length names = 2 then names else [hd names]))"

text \<open>The columns of a file as instants.\<close>

definition column_instants :: "(string \<Rightarrow> datetime option) \<Rightarrow> parquet_file \<Rightarrow> string \<Rightarrow> instant set" where
  "column_instants fromisoformat pf col = set (parse_array fromisoformat (read_column pf col))"

definition no_parser :: "string \<Rightarrow> datetime option" where
  "no_parser s = None"

definition paired_and_single :: parquet_file where
  "paired_and_single =
     \<lparr>schema_names = [''timestamp'', ''start_datetime'', ''end_datetime''],
      row_groups =
        [(\<lambda>col. if col = ''timestamp'' then [CDatetime (Aware 5 0)]
                else if col = ''start_datetime'' then [CDatetime (Naive 1)]
                else if col = ''end_datetime'' then [CDatetime (Aware 9 0)]
                else [])]\<rparr>"

definition paired_only :: parquet_file where
  "paired_only =
     \<lparr>schema_names = [''date'', ''start_datetime'', ''end_datetime''],
      row_groups =
        [(\<lambda>col. if col = ''date'' then [COther, CNull]
                else if col = ''start_datetime'' then [CDatetime (Naive 4), CDatetime (Aware 3 2)]
                else if col = ''end_datetime'' then [CDatetime (Aware 9 0), CNull]
                else [])]\<rparr>"

text \<open>
  The bounds a candidate gives: for two names the least value of the first column and
  the greatest of the second, otherwise the least and the greatest of the one column.
\<close>

definition bounds_of :: "(string \<Rightarrow> datetime option) \<Rightarrow> parquet_file \<Rightarrow> string list \<Rightarrow>
     instant option \<times> instant option" where
  "bounds_of fromisoformat pf names =
     (if length names = 2
      then (Some (Min (column_instants fromisoformat pf (names ! 0))),
            Some (Max (column_instants fromisoformat pf (names ! 1))))
      else (Some (Min (column_instants fromisoformat pf (hd names))),
            Some (Max (column_instants fromisoformat pf (hd names)))))"

definition no_prior :: persisted where
  "no_prior = \<lparr>parquet_item_ids = [], metadata_item_ids = [], plot_item_ids = []\<rparr>"

text \<open>
  One partition with a sidecar tree and a plot tree configured, where only the copy of
  the data file succeeds.
\<close>

definition companions_fail_env :: build_env where
  "companions_fail_env =
     \<lparr>incremental = False, root_is_directory = True, records = [example_record],
      metadata_prefix = True, plots_prefix = True,
      copy_from_fs = (\<lambda>kind path. kind = DataAsset),
      plot_infos = (\<lambda>dir. [(True, ''grid_points.png'')]),
      override_id = None\<rparr>"

text \<open>The same partition when the copy of the data file fails.\<close>

definition data_fails_env :: build_env where
  "data_fails_env = companions_fail_env\<lparr>copy_from_fs := (\<lambda>kind path. kind \<noteq> DataAsset)\<rparr>"

text \<open>
  An incremental run over one partition with every copy succeeding, without an override
  document and with one that sets \<open>id\<close>.
\<close>

definition incremental_env :: build_env where
  "incremental_env =
     \<lparr>incremental = True, root_is_directory = True, records = [example_record],
      metadata_prefix = True, plots_prefix = True,
      copy_from_fs = (\<lambda>kind path. True),
      plot_infos = (\<lambda>dir. [(True, ''grid_points.png'')]),
      override_id = None\<rparr>"

definition override_id_env :: build_env where
  "override_id_env =
     incremental_env\<lparr>metadata_prefix := False, plots_prefix := False,
                      override_id := Some ''fixed''\<rparr>"

text \<open>
  The known sets agree with the sub-catalogs and no sub-catalog holds an identifier
  twice.
\<close>

definition ids_consistent :: "build_state \<Rightarrow> bool" where
  "ids_consistent st \<longleftrightarrow>
     existing_parquet_ids st = set (parquet_catalog st) \<and>
     existing_metadata_ids st = set (metadata_catalog st) \<and>
     existing_plot_ids st = set (plots_catalog st) \<and>
     distinct (parquet_catalog st) \<and> distinct (metadata_catalog st) \<and>
     distinct (plots_catalog st)"

definition first_run_state :: build_state where
  "first_run_state =
     \<lparr>parquet_catalog = [''20250102T03''],
      metadata_catalog = [''20250102T03-metadata''],
      plots_catalog = [''20250102T03-plot-grid_points''],
      existing_parquet_ids = {''20250102T03''},
      existing_metadata_ids = {''20250102T03-metadata''},
      existing_plot_ids = {''20250102T03-plot-grid_points''},
      copy_log =
        [(DataAsset, example_path, True),
         (MetadataAsset, [''year=2025'', ''month=01'', ''day=02'', ''hour=03'', ''metadata.json''],
          True),
         (PlotAsset, [''year=2025'', ''month=01'', ''day=02'', ''hour=03'', ''grid_points.png''],
          True)]\<rparr>"

text \<open>
  A later incremental run over the same partition, in which the sidecar and plot copies
  would fail.
\<close>

definition rerun_env :: build_env where
  "rerun_env = companions_fail_env\<lparr>incremental := True\<rparr>"

text \<open>
  One partition with three plots, where the copy of the second plot fails and every
  other copy succeeds.
\<close>

definition one_plot_fails_env :: build_env where
  "one_plot_fails_env =
     \<lparr>incremental = False, root_is_directory = True, records = [example_record],
      metadata_prefix = True, plots_prefix = True,
      copy_from_fs = (\<lambda>kind path. path_name path \<noteq> ''b.png''),
      plot_infos = (\<lambda>dir. [(True, ''a.png''), (True, ''b.png''), (True, ''c.png'')]),
      override_id = None\<rparr>"

section \<open>Properties of partition parsing\<close>

lemma takeWhile_sep: "c \<notin> set k \<Longrightarrow> takeWhile (\<lambda>x. x \<noteq> c) (k @ c # v) = k"
  by (induction k) auto

lemma split1_partition:
  "is_partition_segment s \<Longrightarrow> split1 CHR ''='' s = [segment_key s, segment_value s]"
  by (simp add: is_partition_segment_def split1_def segment_key_def segment_value_def)

lemma parse_partitions_loop_eq:
  "parse_partitions_loop parts path =
     Inr (parts ++ map_of (rev (map (\<lambda>s. (segment_key s, segment_value s))
                                 (filter is_partition_segment path))))"
  by (induction path arbitrary: parts) (simp_all add: split1_partition)

lemma is_partition_segment_iff:
  "is_partition_segment s \<longleftrightarrow>
     (\<exists>k v. k \<noteq> [] \<and> CHR ''='' \<notin> set k \<and> s = k @ CHR ''='' # v \<and>
            segment_key s = k \<and> segment_value s = v)"
proof
  assume ps: "is_partition_segment s"
  let ?k = "takeWhile (\<lambda>x. x \<noteq> CHR ''='') s"
  let ?d = "dropWhile (\<lambda>x. x \<noteq> CHR ''='') s"
  from ps have mem: "CHR ''='' \<in> set s"
    by (simp add: is_partition_segment_def)
  from ps mem have ne: "?k \<noteq> []"
    by (simp add: is_partition_segment_def split1_def)
  from mem have "?d \<noteq> []" by simp
  moreover have "hd ?d = CHR ''=''"
    using mem hd_dropWhile[of "\<lambda>x. x \<noteq> CHR ''=''" s] by auto
  ultimately have d: "?d = CHR ''='' # tl ?d"
    by (cases ?d) auto
  have "s = ?k @ ?d" by simp
  with d have s: "s = ?k @ CHR ''='' # tl ?d" by metis
  have "CHR ''='' \<notin> set ?k"
    by (auto dest: set_takeWhileD)
  with ne s show "\<exists>k v. k \<noteq> [] \<and> CHR ''='' \<notin> set k \<and> s = k @ CHR ''='' # v \<and>
            segment_key s = k \<and> segment_value s = v"
    unfolding segment_key_def segment_value_def by blast
next
  assume "\<exists>k v. k \<noteq> [] \<and> CHR ''='' \<notin> set k \<and> s = k @ CHR ''='' # v \<and>
            segment_key s = k \<and> segment_value s = v"
  then obtain k v where k: "k \<noteq> []" "CHR ''='' \<notin> set k" "s = k @ CHR ''='' # v" by blast
  then have "takeWhile (\<lambda>x. x \<noteq> CHR ''='') s = k"
    by (simp add: takeWhile_sep)
  with k show "is_partition_segment s"
    by (simp add: is_partition_segment_def split1_def)
qed

lemma parse_partitions_ignores_plain:
  "parse_partitions (filter (\<lambda>s. CHR ''='' \<in> set s) path) = parse_partitions path"
proof -
  have "filter is_partition_segment (filter (\<lambda>s. CHR ''='' \<in> set s) path) =
        filter is_partition_segment path"
    by (auto simp: is_partition_segment_def intro: filter_cong)
  then show ?thesis
    by (simp add: parse_partitions_def parse_partitions_loop_eq)
qed

text \<open>
  C9, as the specification states it: the segments extracted as \<open>key=value\<close> pairs are
  exactly those with exactly one \<open>=\<close>. The code differs on both sides. The segment
  \<open>a=b=c\<close> has two \<open>=\<close> and is extracted, with the key \<open>a\<close> and the value \<open>b=c\<close>; the
  segment \<open>=v\<close> has exactly one \<open>=\<close> and is not extracted, its key being empty.
\<close>

theorem parse_partitions_one_eq_counterexample:
  "count_list ''a=b=c'' CHR ''='' = 2 \<and>
   is_partition_segment ''a=b=c'' \<and>
   parse_partitions [''a=b=c''] = Inr [''a'' \<mapsto> ''b=c''] \<and>
   count_list ''=v'' CHR ''='' = 1 \<and>
   \<not> is_partition_segment ''=v'' \<and>
   parse_partitions [''=v''] = Inr Map.empty"
  by (simp add: parse_partitions_def is_partition_segment_def split1_def)

text \<open>
  C9, amended: partition parsing never raises; a segment is extracted exactly when it
  contains at least one \<open>=\<close> and the text before its first \<open>=\<close> is not empty, that text
  being the key and everything after the first \<open>=\<close> the value (further \<open>=\<close> included);
  the result maps each key to the value of the last segment with that key; and segments
  without \<open>=\<close> are ignored: removing them from the path does not change the result.
\<close>

theorem parse_partitions_extracts:
  "(is_partition_segment s \<longleftrightarrow>
      (\<exists>k v. k \<noteq> [] \<and> CHR ''='' \<notin> set k \<and> s = k @ CHR ''='' # v \<and>
             segment_key s = k \<and> segment_value s = v)) \<and>
   parse_partitions path =
     Inr (map_of (rev (map (\<lambda>s. (segment_key s, segment_value s))
                        (filter is_partition_segment path)))) \<and>
   parse_partitions (filter (\<lambda>s. CHR ''='' \<in> set s) path) = parse_partitions path"
  using is_partition_segment_iff [of s] parse_partitions_ignores_plain [of path]
  by (simp add: parse_partitions_def parse_partitions_loop_eq)

section \<open>Properties of item identifiers\<close>

lemma make_item_id_full:
  "partitions r ''year'' = Some y \<Longrightarrow> partitions r ''month'' = Some m \<Longrightarrow>
   partitions r ''day'' = Some d \<Longrightarrow> partitions r ''hour'' = Some h \<Longrightarrow>
   make_item_id r = y @ m @ d @ ''T'' @ h"
  by (simp add: make_item_id_def)

lemma make_item_id_name:
  "partitions r ''year'' = None \<or> partitions r ''month'' = None \<or>
   partitions r ''day'' = None \<or> partitions r ''hour'' = None \<Longrightarrow>
   make_item_id r =
     lower (replace_char CHR ''.'' CHR ''-'' (name_stem (path_name (relative_path r))))"
  by (auto simp: make_item_id_def stem_def split: option.splits)

lemma make_item_id_example:
  assumes "parse_partitions (pre @ example_path) = Inr p"
    and "partitions r = p"
  shows "make_item_id r = ''20250102T03''"
proof -
  have seg: "is_partition_segment ''year=2025''" "is_partition_segment ''month=01''"
    "is_partition_segment ''day=02''" "is_partition_segment ''hour=03''"
    "\<not> is_partition_segment ''data.parquet''"
    by (simp_all add: is_partition_segment_def split1_def)
  from assms have p: "partitions r ''year'' = Some ''2025''"
    "partitions r ''month'' = Some ''01''" "partitions r ''day'' = Some ''02''"
    "partitions r ''hour'' = Some ''03''"
    by (auto simp: parse_partitions_def parse_partitions_loop_eq example_path_def seg
        segment_key_def segment_value_def)
  show ?thesis
    using make_item_id_full [OF p] by simp
qed

lemma rfind_last_dot:
  "CHR ''.'' \<notin> set ext \<Longrightarrow> rfind CHR ''.'' (base @ CHR ''.'' # ext) = Some (length base)"
  by (simp add: rfind_def takeWhile_sep)

lemma name_stem_split:
  assumes "base \<noteq> []" and "ext \<noteq> []" and "CHR ''.'' \<notin> set ext"
  shows "name_stem (base @ CHR ''.'' # ext) = base"
  using assms by (simp add: name_stem_def rfind_last_dot)

lemma name_stem_plain: "CHR ''.'' \<notin> set name \<Longrightarrow> name_stem name = name"
  by (simp add: name_stem_def rfind_def)

lemma of_char_lower_char:
  "(of_char (lower_char c) :: nat) =
     (if (65 \<le> (of_char c :: nat) \<and> (of_char c :: nat) \<le> 90) \<or>
         (192 \<le> (of_char c :: nat) \<and> (of_char c :: nat) \<le> 222 \<and> (of_char c :: nat) \<noteq> 215)
      then of_char c + 32 else of_char c)"
  by (auto simp: lower_char_def Let_def)

lemma lower_char_not_dot: "c \<noteq> CHR ''.'' \<Longrightarrow> lower_char c \<noteq> CHR ''.''"
proof
  assume c: "c \<noteq> CHR ''.''" and "lower_char c = CHR ''.''"
  then have "(of_char (lower_char c) :: nat) = 46" by simp
  then have "(of_char c :: nat) = 46"
    by (auto simp: of_char_lower_char split: if_splits)
  then have "(of_char c :: nat) = of_char CHR ''.''" by simp
  then have "c = CHR ''.''" by (simp only: of_char_eq_iff)
  with c show False by simp
qed

lemma lower_char_not_upper:
  "\<not> (65 \<le> (of_char (lower_char c) :: nat) \<and> (of_char (lower_char c) :: nat) \<le> 90)"
  by (auto simp: of_char_lower_char)

lemma item_id_chars:
  "lower (replace_char CHR ''.'' CHR ''-'' s) =
     map (\<lambda>c. if c = CHR ''.'' then CHR ''-'' else lower_char c) s"
  by (simp add: lower_def replace_char_def lower_char_def)

lemma item_id_char_not_dot:
  "(if c = CHR ''.'' then CHR ''-'' else lower_char c) \<noteq> CHR ''.''"
proof (cases "c = CHR ''.''")
  case True
  then show ?thesis by simp
next
  case False
  then have "lower_char c \<noteq> CHR ''.''" by (rule lower_char_not_dot)
  with False show ?thesis by simp
qed

lemma item_id_no_dot:
  "CHR ''.'' \<notin> set (map (\<lambda>c. if c = CHR ''.'' then CHR ''-'' else lower_char c) s)"
proof
  assume "CHR ''.'' \<in> set (map (\<lambda>c. if c = CHR ''.'' then CHR ''-'' else lower_char c) s)"
  then obtain c where "(if c = CHR ''.'' then CHR ''-'' else lower_char c) = CHR ''.''"
    by (induction s) (simp_all, metis)
  with item_id_char_not_dot [of c] show False by (rule notE)
qed

lemma item_id_char_not_upper:
  "\<not> (65 \<le> (of_char (if c = CHR ''.'' then CHR ''-'' else lower_char c) :: nat) \<and>
      (of_char (if c = CHR ''.'' then CHR ''-'' else lower_char c) :: nat) \<le> 90)"
proof (cases "c = CHR ''.''")
  case True
  then show ?thesis by simp
next
  case False
  with lower_char_not_upper [of c] show ?thesis by simp
qed

lemma item_id_no_upper:
  "\<forall>d \<in> set (map (\<lambda>c. if c = CHR ''.'' then CHR ''-'' else lower_char c) s).
     \<not> (65 \<le> (of_char d :: nat) \<and> (of_char d :: nat) \<le> 90)"
  by (induction s) (simp_all only: list.map list.set ball_simps item_id_char_not_upper simp_thms)

text \<open>
  C3: with all of \<open>year\<close>, \<open>month\<close>, \<open>day\<close> and \<open>hour\<close> among the partition coordinates the
  identifier is their values joined as \<open>{year}{month}{day}T{hour}\<close>; otherwise it is the
  file name without its extension, dots replaced by hyphens, lower-cased. A path ending
  in \<open>year=2025/month=01/day=02/hour=03/data.parquet\<close>, whatever comes before, gets
  \<open>20250102T03\<close> (the sixth conjunct shows such a path split into its parts). The
  identifier depends on nothing else: two records that agree on the four coordinates, all
  present, get the same identifier, and so do two records without the full coordinates
  that agree on the file name. The fallback is also stated without the model's helper
  functions: for a file name \<open>base.ext\<close> (the extension the text after the last dot, both
  parts non-empty) the identifier is \<open>base\<close> with each dot turned into a hyphen and every
  other character lower-cased, so it is as long as \<open>base\<close> and holds no dot and no letter
  \<open>A\<close> to \<open>Z\<close>; for a name without a dot it is the lower-cased name; and lower-casing
  moves the letters \<open>A\<close> to \<open>Z\<close> and the Latin-1 capitals up by 32 and leaves every other
  character.
\<close>

theorem make_item_id_spec:
  "(partitions r ''year'' = Some y \<and> partitions r ''month'' = Some m \<and>
    partitions r ''day'' = Some d \<and> partitions r ''hour'' = Some h \<longrightarrow>
      make_item_id r = y @ m @ d @ ''T'' @ h) \<and>
   (partitions r ''year'' = None \<or> partitions r ''month'' = None \<or>
    partitions r ''day'' = None \<or> partitions r ''hour'' = None \<longrightarrow>
      make_item_id r =
        lower (replace_char CHR ''.'' CHR ''-'' (name_stem (path_name (relative_path r))))) \<and>
   (parse_partitions (pre @ example_path) = Inr p \<and> partitions r = p \<longrightarrow>
      make_item_id r = ''20250102T03'') \<and>
   ((\<forall>k \<in> {''year'', ''month'', ''day'', ''hour''}.
       partitions r k \<noteq> None \<and> partitions r' k = partitions r k) \<longrightarrow>
      make_item_id r' = make_item_id r) \<and>
   ((\<exists>k \<in> {''year'', ''month'', ''day'', ''hour''}. partitions r k = None) \<and>
    (\<exists>k \<in> {''year'', ''month'', ''day'', ''hour''}. partitions r' k = None) \<and>
    path_name (relative_path r') = path_name (relative_path r) \<longrightarrow>
      make_item_id r' = make_item_id r) \<and>
   posix_parts ''out/year=2025/month=01/day=02/hour=03/data.parquet'' = [''out''] @ example_path \<and>
   ((\<exists>k \<in> {''year'', ''month'', ''day'', ''hour''}. partitions r k = None) \<and>
    path_name (relative_path r) = base @ CHR ''.'' # ext \<and>
    base \<noteq> [] \<and> ext \<noteq> [] \<and> CHR ''.'' \<notin> set ext \<longrightarrow>
      make_item_id r = map (\<lambda>c. if c = CHR ''.'' then CHR ''-'' else lower_char c) base \<and>
      length (make_item_id r) = length base \<and>
      CHR ''.'' \<notin> set (make_item_id r) \<and>
      (\<forall>c \<in> set (make_item_id r). \<not> (65 \<le> (of_char c :: nat) \<and> (of_char c :: nat) \<le> 90))) \<and>
   ((\<exists>k \<in> {''year'', ''month'', ''day'', ''hour''}. partitions r k = None) \<and>
    CHR ''.'' \<notin> set (path_name (relative_path r)) \<longrightarrow>
      make_item_id r = map lower_char (path_name (relative_path r))) \<and>
   (of_char (lower_char c) :: nat) =
     (if (65 \<le> (of_char c :: nat) \<and> (of_char c :: nat) \<le> 90) \<or>
         (192 \<le> (of_char c :: nat) \<and> (of_char c :: nat) \<le> 222 \<and> (of_char c :: nat) \<noteq> 215)
      then of_char c + 32 else of_char c)"
proof (intro conjI impI)
  assume "partitions r ''year'' = Some y \<and> partitions r ''month'' = Some m \<and>
    partitions r ''day'' = Some d \<and> partitions r ''hour'' = Some h"
  then show "make_item_id r = y @ m @ d @ ''T'' @ h"
    by (simp add: make_item_id_full)
next
  assume "partitions r ''year'' = None \<or> partitions r ''month'' = None \<or>
    partitions r ''day'' = None \<or> partitions r ''hour'' = None"
  then show "make_item_id r =
        lower (replace_char CHR ''.'' CHR ''-'' (name_stem (path_name (relative_path r))))"
    by (rule make_item_id_name)
next
  assume "parse_partitions (pre @ example_path) = Inr p \<and> partitions r = p"
  then show "make_item_id r = ''20250102T03''"
    by (auto intro: make_item_id_example)
next
  assume "\<forall>k \<in> {''year'', ''month'', ''day'', ''hour''}.
       partitions r k \<noteq> None \<and> partitions r' k = partitions r k"
  then show "make_item_id r' = make_item_id r"
    by (auto simp: make_item_id_def)
next
  assume a: "(\<exists>k \<in> {''year'', ''month'', ''day'', ''hour''}. partitions r k = None) \<and>
    (\<exists>k \<in> {''year'', ''month'', ''day'', ''hour''}. partitions r' k = None) \<and>
    path_name (relative_path r') = path_name (relative_path r)"
  then have "partitions r ''year'' = None \<or> partitions r ''month'' = None \<or>
      partitions r ''day'' = None \<or> partitions r ''hour'' = None"
    and "partitions r' ''year'' = None \<or> partitions r' ''month'' = None \<or>
      partitions r' ''day'' = None \<or> partitions r' ''hour'' = None"
    by auto
  with a show "make_item_id r' = make_item_id r"
    by (simp add: make_item_id_name)
next
  show "posix_parts ''out/year=2025/month=01/day=02/hour=03/data.parquet'' =
      [''out''] @ example_path"
    by (simp add: posix_parts_def example_path_def)
next
  assume a: "(\<exists>k \<in> {''year'', ''month'', ''day'', ''hour''}. partitions r k = None) \<and>
    path_name (relative_path r) = base @ CHR ''.'' # ext \<and>
    base \<noteq> [] \<and> ext \<noteq> [] \<and> CHR ''.'' \<notin> set ext"
  then have "partitions r ''year'' = None \<or> partitions r ''month'' = None \<or>
      partitions r ''day'' = None \<or> partitions r ''hour'' = None"
    by auto
  with a show id: "make_item_id r =
      map (\<lambda>c. if c = CHR ''.'' then CHR ''-'' else lower_char c) base"
    by (simp add: make_item_id_name name_stem_split item_id_chars)
  then show "length (make_item_id r) = length base"
    by simp
  show "CHR ''.'' \<notin> set (make_item_id r)"
    unfolding id by (rule item_id_no_dot)
  show "\<forall>c \<in> set (make_item_id r).
      \<not> (65 \<le> (of_char c :: nat) \<and> (of_char c :: nat) \<le> 90)"
    unfolding id by (rule item_id_no_upper)
next
  assume a: "(\<exists>k \<in> {''year'', ''month'', ''day'', ''hour''}. partitions r k = None) \<and>
    CHR ''.'' \<notin> set (path_name (relative_path r))"
  then have "partitions r ''year'' = None \<or> partitions r ''month'' = None \<or>
      partitions r ''day'' = None \<or> partitions r ''hour'' = None"
    by auto
  with a show "make_item_id r = map lower_char (path_name (relative_path r))"
    by (simp add: make_item_id_name name_stem_plain item_id_chars cong: map_cong)
next
  show "(of_char (lower_char c) :: nat) =
     (if (65 \<le> (of_char c :: nat) \<and> (of_char c :: nat) \<le> 90) \<or>
         (192 \<le> (of_char c :: nat) \<and> (of_char c :: nat) \<le> 222 \<and> (of_char c :: nat) \<noteq> 215)
      then of_char c + 32 else of_char c)"
    by (rule of_char_lower_char)
qed

theorem make_item_id_witness:
  "make_item_id example_record = ''20250102T03'' \<and>
   make_item_id unpartitioned_record = ''winds-v2'' \<and>
   make_item_id (example_record\<lparr>relative_path := [''elsewhere'', ''other.parquet'']\<rparr>) =
     make_item_id example_record \<and>
   make_item_id (unpartitioned_record\<lparr>relative_path := [''Winds.V2.parquet''],
                                      partitions := Map.empty\<rparr>) =
     make_item_id unpartitioned_record \<and>
   make_item_id (named_record ''archive.tar.GEOPARQUET'') = ''archive-tar'' \<and>
   make_item_id (named_record (char_of (201::nat) # ''.parquet'')) = [char_of (233::nat)] \<and>
   make_item_id (named_record ''README'') = ''readme''"
proof -
  have full: "partitions example_record ''year'' = Some ''2025'' \<and>
      partitions example_record ''month'' = Some ''01'' \<and>
      partitions example_record ''day'' = Some ''02'' \<and>
      partitions example_record ''hour'' = Some ''03''"
    by (simp add: example_record_def)
  have parsed: "parse_partitions ([] @ example_path) = Inr (partitions example_record) \<and>
      partitions example_record = partitions example_record"
    by (simp add: parse_partitions_def example_path_def example_record_def
        is_partition_segment_def split1_def)
  have same: "\<forall>k \<in> {''year'', ''month'', ''day'', ''hour''}.
      partitions example_record k \<noteq> None \<and>
      partitions (example_record\<lparr>relative_path := [''elsewhere'', ''other.parquet'']\<rparr>) k =
        partitions example_record k"
    by (simp add: example_record_def)
  have part: "partitions unpartitioned_record ''year'' = None \<or>
      partitions unpartitioned_record ''month'' = None \<or>
      partitions unpartitioned_record ''day'' = None \<or>
      partitions unpartitioned_record ''hour'' = None"
    by (simp add: unpartitioned_record_def)
  have name: "(\<exists>k \<in> {''year'', ''month'', ''day'', ''hour''}.
        partitions unpartitioned_record k = None) \<and>
      (\<exists>k \<in> {''year'', ''month'', ''day'', ''hour''}.
        partitions (unpartitioned_record\<lparr>relative_path := [''Winds.V2.parquet''],
                                         partitions := Map.empty\<rparr>) k = None) \<and>
      path_name (relative_path (unpartitioned_record\<lparr>relative_path := [''Winds.V2.parquet''],
                                         partitions := Map.empty\<rparr>)) =
      path_name (relative_path unpartitioned_record)"
    by (auto simp: unpartitioned_record_def path_name_def is_root_def)
  have stem: "lower (replace_char CHR ''.'' CHR ''-''
      (name_stem (path_name (relative_path unpartitioned_record)))) = ''winds-v2''"
    by (simp add: unpartitioned_record_def path_name_def is_root_def name_stem_def rfind_def
        replace_char_def lower_def lower_char_def char_of_def bit_0)
  note spec1 = make_item_id_spec [where r = example_record and y = "''2025''" and m = "''01''"
      and d = "''02''" and h = "''03''" and pre = "[]" and p = "partitions example_record"
      and r' = "example_record\<lparr>relative_path := [''elsewhere'', ''other.parquet'']\<rparr>"]
  note spec2 = make_item_id_spec [where r = unpartitioned_record
      and r' = "unpartitioned_record\<lparr>relative_path := [''Winds.V2.parquet''],
                                     partitions := Map.empty\<rparr>"]
  note c1 = spec1 [THEN conjunct1, THEN mp, OF full]
  note c2 = spec2 [THEN conjunct2, THEN conjunct1, THEN mp, OF part]
  note c3 = spec1 [THEN conjunct2, THEN conjunct2, THEN conjunct1, THEN mp, OF parsed]
  note c4 = spec1 [THEN conjunct2, THEN conjunct2, THEN conjunct2, THEN conjunct1, THEN mp,
      OF same]
  note c5 = spec2 [THEN conjunct2, THEN conjunct2, THEN conjunct2, THEN conjunct2,
      THEN conjunct1, THEN mp, OF name]
  have multi: "(\<exists>k \<in> {''year'', ''month'', ''day'', ''hour''}.
        partitions (named_record ''archive.tar.GEOPARQUET'') k = None) \<and>
      path_name (relative_path (named_record ''archive.tar.GEOPARQUET'')) =
        ''archive.tar'' @ CHR ''.'' # ''GEOPARQUET'' \<and>
      ''archive.tar'' \<noteq> [] \<and> ''GEOPARQUET'' \<noteq> [] \<and> CHR ''.'' \<notin> set ''GEOPARQUET''"
    by (auto simp: named_record_def path_name_def is_root_def)
  have latin: "(\<exists>k \<in> {''year'', ''month'', ''day'', ''hour''}.
        partitions (named_record (char_of (201::nat) # ''.parquet'')) k = None) \<and>
      path_name (relative_path (named_record (char_of (201::nat) # ''.parquet''))) =
        [char_of (201::nat)] @ CHR ''.'' # ''parquet'' \<and>
      [char_of (201::nat)] \<noteq> [] \<and> ''parquet'' \<noteq> [] \<and> CHR ''.'' \<notin> set ''parquet''"
    by (auto simp: named_record_def path_name_def is_root_def char_of_def bit_0)
  have plain: "(\<exists>k \<in> {''year'', ''month'', ''day'', ''hour''}.
        partitions (named_record ''README'') k = None) \<and>
      CHR ''.'' \<notin> set (path_name (relative_path (named_record ''README'')))"
    by (auto simp: named_record_def path_name_def is_root_def)
  have e1: "map (\<lambda>c. if c = CHR ''.'' then CHR ''-'' else lower_char c) ''archive.tar'' =
      ''archive-tar''"
    by (simp add: lower_char_def char_of_def bit_0)
  have e2: "map (\<lambda>c. if c = CHR ''.'' then CHR ''-'' else lower_char c) [char_of (201::nat)] =
      [char_of (233::nat)]"
    by (simp add: lower_char_def char_of_def bit_0)
  have e3: "map lower_char (path_name (relative_path (named_record ''README''))) = ''readme''"
    by (simp add: named_record_def path_name_def is_root_def lower_char_def char_of_def bit_0)
  note s1 = make_item_id_spec [where r = "named_record ''archive.tar.GEOPARQUET''"
      and base = "''archive.tar''" and ext = "''GEOPARQUET''"]
  note s2 = make_item_id_spec [where r = "named_record (char_of (201::nat) # ''.parquet'')"
      and base = "[char_of (201::nat)]" and ext = "''parquet''"]
  note s3 = make_item_id_spec [where r = "named_record ''README''"]
  note c7 = s1 [THEN conjunct2, THEN conjunct2, THEN conjunct2, THEN conjunct2,
      THEN conjunct2, THEN conjunct2, THEN conjunct1, THEN mp, OF multi, THEN conjunct1]
  note c7' = s2 [THEN conjunct2, THEN conjunct2, THEN conjunct2, THEN conjunct2,
      THEN conjunct2, THEN conjunct2, THEN conjunct1, THEN mp, OF latin, THEN conjunct1]
  note c8 = s3 [THEN conjunct2, THEN conjunct2, THEN conjunct2, THEN conjunct2,
      THEN conjunct2, THEN conjunct2, THEN conjunct2, THEN conjunct1, THEN mp, OF plain]
  from c1 c2 c3 c4 c5 stem have first: "make_item_id example_record = ''20250102T03'' \<and>
      make_item_id unpartitioned_record = ''winds-v2'' \<and>
      make_item_id (example_record\<lparr>relative_path := [''elsewhere'', ''other.parquet'']\<rparr>) =
        make_item_id example_record \<and>
      make_item_id (unpartitioned_record\<lparr>relative_path := [''Winds.V2.parquet''],
                                         partitions := Map.empty\<rparr>) =
        make_item_id unpartitioned_record"
    by simp
  from c7 c7' c8 e1 e2 e3 have "make_item_id (named_record ''archive.tar.GEOPARQUET'') =
        ''archive-tar'' \<and>
      make_item_id (named_record (char_of (201::nat) # ''.parquet'')) = [char_of (233::nat)] \<and>
      make_item_id (named_record ''README'') = ''readme''"
    by (simp only: simp_thms)
  with first show ?thesis by (simp only: simp_thms)
qed

section \<open>Properties of the plot classification\<close>

lemma match_plot_variogram_iff:
  "match_plot_variogram name = Some (c, rkt) \<longleftrightarrow>
     (c = CHR ''u'' \<or> c = CHR ''v'') \<and> variogram_name c rkt name"
proof
  assume m: "match_plot_variogram name = Some (c, rkt)"
  then have p: "prefix ''variogram_'' name"
    by (simp add: match_plot_variogram_def split: if_splits)
  then obtain t where name: "name = ''variogram_'' @ t"
    by (auto simp: prefix_def)
  with m obtain rest where t: "t = c # rest" and c: "c = CHR ''u'' \<or> c = CHR ''v''"
    and r: "(rkt \<and> prefix ''_rkt_empirical_'' rest) \<or>
            (\<not> rkt \<and> prefix ''_empirical_'' rest)"
    by (auto simp: match_plot_variogram_def split: list.splits if_splits)
  from r obtain u where "rest = (if rkt then ''_rkt'' else []) @ ''_empirical_'' @ u"
    by (auto simp: prefix_def)
  with name t c show "(c = CHR ''u'' \<or> c = CHR ''v'') \<and> variogram_name c rkt name"
    by (auto simp: variogram_name_def)
next
  assume a: "(c = CHR ''u'' \<or> c = CHR ''v'') \<and> variogram_name c rkt name"
  then obtain u where "name = ''variogram_'' @ [c] @ (if rkt then ''_rkt'' else []) @ ''_empirical_'' @ u"
    by (auto simp: variogram_name_def prefix_def)
  with a show "match_plot_variogram name = Some (c, rkt)"
    by (auto simp: match_plot_variogram_def)
qed

lemma variogram_not_grid: "variogram_name c rkt name \<Longrightarrow> \<not> prefix ''grid_points'' name"
  by (auto simp: variogram_name_def prefix_def)

lemma describe_variogram:
  assumes "c = CHR ''u'' \<or> c = CHR ''v''" and "variogram_name c rkt (lower filename)"
  shows "describe_plot_asset filename =
     (Some (if rkt then rkt_description c else ok_description c),
      [(''plot_type'', ''variogram''), (''plot_component'', [c]),
       (''plot_variant'', if rkt then ''regression-kriging'' else ''ordinary-kriging'')])"
proof -
  from assms have "match_plot_variogram (lower filename) = Some (c, rkt)"
    by (simp add: match_plot_variogram_iff)
  with variogram_not_grid [OF assms(2)] show ?thesis
    by (simp add: describe_plot_asset_def)
qed

lemma describe_unmatched:
  assumes "\<not> prefix ''grid_points'' (lower filename)"
    and "\<forall>c \<in> {CHR ''u'', CHR ''v''}. \<forall>rkt. \<not> variogram_name c rkt (lower filename)"
  shows "describe_plot_asset filename = (None, [])"
proof -
  have "match_plot_variogram (lower filename) = None"
  proof (cases "match_plot_variogram (lower filename)")
    case None then show ?thesis .
  next
    case (Some a)
    then obtain c rkt where "match_plot_variogram (lower filename) = Some (c, rkt)"
      by (cases a) auto
    with assms(2) show ?thesis
      by (auto simp: match_plot_variogram_iff)
  qed
  with assms(1) show ?thesis
    by (simp add: describe_plot_asset_def)
qed

lemma process_plots_single:
  assumes "suffix ''.png'' (lower name)"
    and "copy_from_fs env PlotAsset (path_parent (relative_path r) @ [name])"
    and "\<not> (incremental env \<and> item_id @ ''-plot-'' @ name_stem name \<in> existing_plot_ids st)"
  shows "plots_catalog (process_plots env r item_id [(True, name)] st) =
     plots_catalog st @ [final_id env (item_id @ ''-plot-'' @ name_stem name)]"
  using assms by (simp add: Let_def log_copy_def)

text \<open>
  C8: on the lower-cased file name, a name matching
  \<open>variogram_<component>[_rkt]_empirical_*\<close> with component \<open>u\<close> or \<open>v\<close> is given
  \<open>plot_type = variogram\<close>, \<open>plot_component\<close> the component letter and \<open>plot_variant\<close>
  \<open>regression-kriging\<close> with the \<open>_rkt\<close> marker, \<open>ordinary-kriging\<close> without it, and a
  description that differs between the two components;
  \<open>variogram_u_rkt_empirical_foo.png\<close> and \<open>variogram_v_empirical_bar.png\<close> classify as
  the specification says. A file name that matches neither this pattern nor the grid
  mesh prefix gets no description and no classification property, its item is created
  with the property \<open>plot_name\<close> alone, and the plot loop still adds it to the plots
  catalog (when it ends in \<open>.png\<close>, its copy succeeds and its identifier is not known).
\<close>

theorem describe_plot_asset_classifies:
  "((c = CHR ''u'' \<or> c = CHR ''v'') \<and> variogram_name c rkt (lower filename) \<longrightarrow>
      describe_plot_asset filename =
        (Some (if rkt then rkt_description c else ok_description c),
         [(''plot_type'', ''variogram''), (''plot_component'', [c]),
          (''plot_variant'', if rkt then ''regression-kriging'' else ''ordinary-kriging'')])) \<and>
   rkt_description CHR ''u'' \<noteq> rkt_description CHR ''v'' \<and>
   ok_description CHR ''u'' \<noteq> ok_description CHR ''v'' \<and>
   snd (describe_plot_asset ''variogram_u_rkt_empirical_foo.png'') =
     [(''plot_type'', ''variogram''), (''plot_component'', ''u''),
      (''plot_variant'', ''regression-kriging'')] \<and>
   snd (describe_plot_asset ''variogram_v_empirical_bar.png'') =
     [(''plot_type'', ''variogram''), (''plot_component'', ''v''),
      (''plot_variant'', ''ordinary-kriging'')] \<and>
   (\<not> prefix ''grid_points'' (lower other) \<and>
    (\<forall>c \<in> {CHR ''u'', CHR ''v''}. \<forall>rkt. \<not> variogram_name c rkt (lower other)) \<longrightarrow>
      describe_plot_asset other = (None, []) \<and>
      plot_item_properties other = [(''plot_name'', other)] \<and>
      (suffix ''.png'' (lower other) \<and>
       copy_from_fs env PlotAsset (path_parent (relative_path r) @ [other]) \<and>
       \<not> (incremental env \<and> item_id @ ''-plot-'' @ name_stem other \<in> existing_plot_ids st) \<longrightarrow>
         plots_catalog (process_plots env r item_id [(True, other)] st) =
           plots_catalog st @ [final_id env (item_id @ ''-plot-'' @ name_stem other)]))"
proof (intro conjI impI)
  assume "(c = CHR ''u'' \<or> c = CHR ''v'') \<and> variogram_name c rkt (lower filename)"
  then show "describe_plot_asset filename =
        (Some (if rkt then rkt_description c else ok_description c),
         [(''plot_type'', ''variogram''), (''plot_component'', [c]),
          (''plot_variant'', if rkt then ''regression-kriging'' else ''ordinary-kriging'')])"
    using describe_variogram by blast
next
  show "rkt_description CHR ''u'' \<noteq> rkt_description CHR ''v''"
    by (simp add: rkt_description_def component_label_def)
  show "ok_description CHR ''u'' \<noteq> ok_description CHR ''v''"
    by (simp add: ok_description_def component_label_def)
next
  have "variogram_name CHR ''u'' True (lower ''variogram_u_rkt_empirical_foo.png'')"
    by (simp add: variogram_name_def lower_def lower_char_def)
  from describe_variogram [OF _ this]
  show "snd (describe_plot_asset ''variogram_u_rkt_empirical_foo.png'') =
     [(''plot_type'', ''variogram''), (''plot_component'', ''u''),
      (''plot_variant'', ''regression-kriging'')]"
    by simp
next
  have "variogram_name CHR ''v'' False (lower ''variogram_v_empirical_bar.png'')"
    by (simp add: variogram_name_def lower_def lower_char_def)
  from describe_variogram [OF _ this]
  show "snd (describe_plot_asset ''variogram_v_empirical_bar.png'') =
     [(''plot_type'', ''variogram''), (''plot_component'', ''v''),
      (''plot_variant'', ''ordinary-kriging'')]"
    by simp
next
  assume a: "\<not> prefix ''grid_points'' (lower other) \<and>
    (\<forall>c \<in> {CHR ''u'', CHR ''v''}. \<forall>rkt. \<not> variogram_name c rkt (lower other))"
  then show d: "describe_plot_asset other = (None, [])"
    using describe_unmatched by blast
  then show "plot_item_properties other = [(''plot_name'', other)]"
    by (simp add: plot_item_properties_def)
next
  assume "suffix ''.png'' (lower other) \<and>
       copy_from_fs env PlotAsset (path_parent (relative_path r) @ [other]) \<and>
       \<not> (incremental env \<and> item_id @ ''-plot-'' @ name_stem other \<in> existing_plot_ids st)"
  then show "plots_catalog (process_plots env r item_id [(True, other)] st) =
           plots_catalog st @ [final_id env (item_id @ ''-plot-'' @ name_stem other)]"
    using process_plots_single by blast
qed

theorem describe_plot_asset_witness:
  "describe_plot_asset ''Variogram_U_RKT_empirical_foo.png'' =
     (Some (rkt_description CHR ''u''),
      [(''plot_type'', ''variogram''), (''plot_component'', ''u''),
       (''plot_variant'', ''regression-kriging'')]) \<and>
   describe_plot_asset ''notes.png'' = (None, []) \<and>
   plot_item_properties ''notes.png'' = [(''plot_name'', ''notes.png'')] \<and>
   plots_catalog (process_plots plots_env example_record ''20250102T03''
                    [(True, ''notes.png'')] empty_state) =
     [''20250102T03-plot-notes'']"
proof -
  have low: "lower ''Variogram_U_RKT_empirical_foo.png'' = ''variogram_u_rkt_empirical_foo.png''"
    by (simp add: lower_def lower_char_def char_of_def bit_0)
  have m: "(CHR ''u'' = CHR ''u'' \<or> CHR ''u'' = CHR ''v'') \<and>
      variogram_name CHR ''u'' True (lower ''Variogram_U_RKT_empirical_foo.png'')"
    by (simp add: low) (simp add: variogram_name_def)
  have lown: "lower ''notes.png'' = ''notes.png''"
    by (simp add: lower_def lower_char_def)
  have u: "\<not> prefix ''grid_points'' (lower ''notes.png'') \<and>
      (\<forall>c \<in> {CHR ''u'', CHR ''v''}. \<forall>rkt. \<not> variogram_name c rkt (lower ''notes.png''))"
    by (simp add: lown) (simp add: variogram_name_def)
  have k: "suffix ''.png'' (lower ''notes.png'') \<and>
      copy_from_fs plots_env PlotAsset (path_parent (relative_path example_record) @ [''notes.png'']) \<and>
      \<not> (incremental plots_env \<and>
         ''20250102T03'' @ ''-plot-'' @ name_stem ''notes.png'' \<in> existing_plot_ids empty_state)"
    by (simp add: lown) (simp add: suffix_to_prefix plots_env_def empty_state_def)
  have st: "name_stem ''notes.png'' = ''notes''"
    by (simp add: name_stem_def rfind_def)
  note spec = describe_plot_asset_classifies [where c = "CHR ''u''" and rkt = True
      and filename = "''Variogram_U_RKT_empirical_foo.png''" and other = "''notes.png''"
      and env = plots_env and r = example_record and item_id = "''20250102T03''"
      and st = empty_state]
  note c1 = spec [THEN conjunct1, THEN mp, OF m]
  note c6 = spec [THEN conjunct2, THEN conjunct2, THEN conjunct2, THEN conjunct2,
      THEN conjunct2, THEN mp, OF u]
  note c7 = c6 [THEN conjunct2, THEN conjunct2, THEN mp, OF k]
  from c1 c6 c7 st show ?thesis
    by (simp add: final_id_def plots_env_def empty_state_def)
qed

section \<open>Properties of the override merge\<close>

lemma map_of_deep_merge:
  "distinct (map fst extra) \<Longrightarrow>
   map_of (deep_merge_dict base extra) k =
     (case map_of extra k of
        None \<Rightarrow> map_of base k
      | Some v \<Rightarrow> Some (case (map_of base k, v) of
                          (Some (JObj b), JObj e) \<Rightarrow> JObj (deep_merge_dict b e)
                        | _ \<Rightarrow> v))"
proof (induction extra arbitrary: base)
  case Nil
  then show ?case by simp
next
  case (Cons a extra)
  obtain key val where a: "a = (key, val)" by (cases a)
  from Cons.prems a have fresh: "map_of extra key = None" and d: "distinct (map fst extra)"
    by (auto simp: map_of_eq_None_iff)
  show ?case
    unfolding a deep_merge_dict.simps Cons.IH [OF d]
    using fresh by (cases "k = key") (simp_all add: update_conv' split: option.splits)
qed

lemma map_of_deep_merge_other:
  "k \<notin> fst ` set extra \<Longrightarrow> map_of (deep_merge_dict base extra) k = map_of base k"
proof (induction extra arbitrary: base)
  case Nil
  then show ?case by simp
next
  case (Cons a extra)
  obtain key val where a: "a = (key, val)" by (cases a)
  with Cons.prems have "k \<noteq> key" and "k \<notin> fst ` set extra" by auto
  then show ?case
    by (simp add: a Cons.IH update_conv')
qed

lemma asset_href_cases:
  assumes "asset_href d key = Some h"
  obtains assets entries where "map_of d ''assets'' = Some (JObj assets)"
    and "map_of assets key = Some (JObj entries)" and "map_of entries ''href'' = Some h"
  using assms by (auto simp: asset_href_def split: option.splits json.splits)

lemma asset_href_merge:
  assumes "unique_keys ov" and "asset_href base key = Some h"
    and "map_of ov ''assets'' = Some (JObj oas)" and "unique_keys oas"
    and "map_of oas key = Some (JObj ofs)" and "''href'' \<notin> fst ` set ofs"
  shows "asset_href (deep_merge_dict base ov) key = Some h"
proof -
  from assms(2) obtain bas bfs where b: "map_of base ''assets'' = Some (JObj bas)"
    "map_of bas key = Some (JObj bfs)" "map_of bfs ''href'' = Some h"
    by (rule asset_href_cases)
  have 1: "map_of (deep_merge_dict base ov) ''assets'' = Some (JObj (deep_merge_dict bas oas))"
    using assms(1,3) b(1) by (simp add: map_of_deep_merge unique_keys_def)
  have 2: "map_of (deep_merge_dict bas oas) key = Some (JObj (deep_merge_dict bfs ofs))"
    using assms(4,5) b(2) by (simp add: map_of_deep_merge unique_keys_def)
  have 3: "map_of (deep_merge_dict bfs ofs) ''href'' = Some h"
    using assms(6) b(3) by (simp add: map_of_deep_merge_other)
  from 1 2 3 show ?thesis
    by (simp add: asset_href_def)
qed

lemma restore_step_keeps_href:
  assumes "asset_href m key = Some h"
    and "py_contains k (get_assets m) = Inr True"
    and "py_getitem (get_assets m) k = Inr asset"
    and "py_contains ''href'' asset = Inr False"
    and "py_setitem asset ''href'' href = Inr asset'"
    and "py_setitem (get_assets m) k asset' = Inr assets'"
  shows "asset_href (AList.update ''assets'' assets' m) key = Some h"
proof -
  from assms(1) obtain mas mfs where m: "map_of m ''assets'' = Some (JObj mas)"
    "map_of mas key = Some (JObj mfs)" "map_of mfs ''href'' = Some h"
    by (rule asset_href_cases)
  then have ga: "get_assets m = JObj mas"
    by (simp add: get_assets_def)
  from assms(3) ga have asset: "map_of mas k = Some asset"
    by (simp split: option.splits)
  have "k \<noteq> key"
  proof
    assume "k = key"
    with asset m(2) have "asset = JObj mfs" by simp
    with assms(4) have "''href'' \<notin> fst ` set mfs" by simp
    then have "map_of mfs ''href'' = None" by (simp add: map_of_eq_None_iff)
    with m(3) show False by simp
  qed
  moreover from assms(6) ga have "assets' = JObj (AList.update k asset' mas)"
    by simp
  ultimately show ?thesis
    using m by (simp add: asset_href_def update_conv')
qed

lemma restore_keeps_href:
  "asset_href m key = Some h \<Longrightarrow> restore_hrefs m hs = Inr m' \<Longrightarrow>
   asset_href m' key = Some h"
proof (induction hs arbitrary: m)
  case Nil
  then show ?case by simp
next
  case (Cons a hs)
  obtain k href where a: "a = (k, href)" by (cases a)
  from Cons.prems(2) show ?case
    unfolding a restore_hrefs.simps bind_err_def
    by (auto split: sum.splits if_splits
        intro: Cons.IH [OF Cons.prems(1)] Cons.IH [OF restore_step_keeps_href [OF Cons.prems(1)]])
qed


lemma list_all_update:
  "P v \<Longrightarrow> list_all P (map snd al) \<Longrightarrow> list_all P (map snd (AList.update k v al))"
  by (induction al) auto

lemma merge_all_obj:
  "list_all is_obj (map snd b) \<Longrightarrow> list_all is_obj (map snd e) \<Longrightarrow>
   list_all is_obj (map snd (deep_merge_dict b e))"
proof (induction e arbitrary: b)
  case Nil
  then show ?case by simp
next
  case (Cons a e)
  obtain key val where a: "a = (key, val)" by (cases a)
  with Cons.prems(2) have v: "is_obj val" and e: "list_all is_obj (map snd e)" by auto
  have "is_obj (case (map_of b key, val) of
             (Some (JObj x), JObj y) \<Rightarrow> JObj (deep_merge_dict x y)
           | _ \<Rightarrow> val)"
    using v by (auto split: option.splits json.splits)
  from list_all_update [OF this Cons.prems(1)] e show ?case
    unfolding a deep_merge_dict.simps by (rule Cons.IH)
qed

lemma asset_hrefs_total:
  "list_all is_obj (map snd assets) \<Longrightarrow> \<exists>hs. asset_hrefs assets = Inr hs"
proof (induction assets)
  case Nil
  then show ?case by simp
next
  case (Cons a assets)
  obtain key asset where a: "a = (key, asset)" by (cases a)
  with Cons.prems obtain fs where "asset = JObj fs" by (cases asset) auto
  with Cons a show ?case
    by (auto simp: bind_err_def)
qed

lemma original_asset_hrefs_total:
  "assets_are_objects base \<Longrightarrow> \<exists>hs. original_asset_hrefs base = Inr hs"
  using asset_hrefs_total
  by (auto simp: assets_are_objects_def original_asset_hrefs_def bind_err_def split: json.splits)

lemma restore_hrefs_total:
  "assets_are_objects m \<Longrightarrow> \<exists>m'. restore_hrefs m hs = Inr m'"
proof (induction hs arbitrary: m)
  case Nil
  then show ?case by simp
next
  case (Cons a hs)
  obtain k href where a: "a = (k, href)" by (cases a)
  from Cons.prems obtain mas where ga: "get_assets m = JObj mas"
    and objs: "list_all is_obj (map snd mas)"
    by (auto simp: assets_are_objects_def split: json.splits)
  show ?case
  proof (cases "k \<in> fst ` set mas")
    case False
    with ga Cons.IH [OF Cons.prems] show ?thesis
      by (simp add: a bind_err_def)
  next
    case True
    then obtain asset where asset: "map_of mas k = Some asset"
      by (cases "map_of mas k") (auto simp: map_of_eq_None_iff)
    then have "(k, asset) \<in> set mas"
      by (rule map_of_SomeD)
    then have "asset \<in> snd ` set mas"
      by force
    with objs have "is_obj asset"
      by (auto simp: list_all_iff)
    then obtain fs where fs: "asset = JObj fs"
      by (cases asset) simp_all
    show ?thesis
    proof (cases "''href'' \<in> fst ` set fs \<or> href = JNull")
      case True
      with ga asset fs \<open>k \<in> fst ` set mas\<close> Cons.IH [OF Cons.prems] show ?thesis
        by (auto simp: a bind_err_def)
    next
      case False
      let ?m2 = "AList.update ''assets''
          (JObj (AList.update k (JObj (AList.update ''href'' href fs)) mas)) m"
      have "get_assets ?m2 = JObj (AList.update k (JObj (AList.update ''href'' href fs)) mas)"
        by (simp add: get_assets_def update_conv')
      moreover have "list_all is_obj
          (map snd (AList.update k (JObj (AList.update ''href'' href fs)) mas))"
        using objs by (simp add: list_all_update)
      ultimately have "assets_are_objects ?m2"
        by (simp add: assets_are_objects_def)
      from Cons.IH [OF this] False ga asset fs \<open>k \<in> fst ` set mas\<close> show ?thesis
        by (auto simp: a bind_err_def)
    qed
  qed
qed

lemma merged_assets_objects:
  assumes "unique_keys ov" and "assets_are_objects base"
    and "map_of ov ''assets'' = Some (JObj oas)" and "list_all is_obj (map snd oas)"
  shows "assets_are_objects (deep_merge_dict base ov)"
proof (cases "map_of base ''assets''")
  case None
  with assms(1,3) have "map_of (deep_merge_dict base ov) ''assets'' = Some (JObj oas)"
    by (simp add: map_of_deep_merge unique_keys_def)
  with assms(4) show ?thesis
    by (simp add: assets_are_objects_def get_assets_def)
next
  case (Some v)
  with assms(2) obtain bas where v: "v = JObj bas" and objs: "list_all is_obj (map snd bas)"
    by (auto simp: assets_are_objects_def get_assets_def split: json.splits)
  with Some assms(1,3)
  have "map_of (deep_merge_dict base ov) ''assets'' = Some (JObj (deep_merge_dict bas oas))"
    by (simp add: map_of_deep_merge unique_keys_def)
  with merge_all_obj [OF objs assms(4)] show ?thesis
    by (simp add: assets_are_objects_def get_assets_def)
qed

lemma apply_item_overrides_total:
  assumes "unique_keys ov" and "assets_are_objects base"
    and "map_of ov ''assets'' = Some (JObj oas)" and "list_all is_obj (map snd oas)"
  shows "\<exists>merged. apply_item_overrides base ov = Inr merged"
proof -
  from original_asset_hrefs_total [OF assms(2)] obtain hs
    where "original_asset_hrefs base = Inr hs" by blast
  with restore_hrefs_total [OF merged_assets_objects [OF assms], of hs] show ?thesis
    by (auto simp: apply_item_overrides_def bind_err_def)
qed

lemma apply_item_overrides_keeps_href:
  assumes "unique_keys ov" and "asset_href base key = Some h"
    and "map_of ov ''assets'' = Some (JObj oas)" and "unique_keys oas"
    and "map_of oas key = Some (JObj ofs)" and "''href'' \<notin> fst ` set ofs"
    and "apply_item_overrides base ov = Inr merged"
  shows "asset_href merged key = Some h"
proof -
  from assms(7) obtain hs where "restore_hrefs (deep_merge_dict base ov) hs = Inr merged"
    by (auto simp: apply_item_overrides_def bind_err_def split: sum.splits)
  from restore_keeps_href [OF asset_href_merge [OF assms(1-6)] this] show ?thesis .
qed

text \<open>
  C6: for an override whose keys are distinct (as in any map read from JSON), the merged
  tree has at every key of the override the recursive merge of the two values when both
  are maps, and the override's value otherwise; every other key keeps the generated
  value. An array in the override replaces what was there, whole. Merging the override
  \<open>{"properties": {"x": 1}}\<close> into an item whose properties are \<open>{"row_count": 10}\<close>
  gives the properties \<open>{"row_count": 10, "x": 1}\<close>.
\<close>

theorem deep_merge_dict_spec:
  "(unique_keys extra \<longrightarrow>
      map_of (deep_merge_dict base extra) k =
        (case map_of extra k of
           None \<Rightarrow> map_of base k
         | Some v \<Rightarrow> Some (case (map_of base k, v) of
                             (Some (JObj b), JObj e) \<Rightarrow> JObj (deep_merge_dict b e)
                           | _ \<Rightarrow> v))) \<and>
   (unique_keys extra \<and> map_of extra k = Some (JArr xs) \<longrightarrow>
      map_of (deep_merge_dict base extra) k = Some (JArr xs)) \<and>
   (map_of base ''properties'' = Some (JObj [(''row_count'', JInt 10)]) \<longrightarrow>
      map_of (deep_merge_dict base [(''properties'', JObj [(''x'', JInt 1)])]) ''properties'' =
        Some (JObj [(''row_count'', JInt 10), (''x'', JInt 1)]))"
proof (intro conjI impI)
  assume "unique_keys extra"
  then show "map_of (deep_merge_dict base extra) k =
        (case map_of extra k of
           None \<Rightarrow> map_of base k
         | Some v \<Rightarrow> Some (case (map_of base k, v) of
                             (Some (JObj b), JObj e) \<Rightarrow> JObj (deep_merge_dict b e)
                           | _ \<Rightarrow> v))"
    by (simp add: unique_keys_def map_of_deep_merge)
next
  assume "unique_keys extra \<and> map_of extra k = Some (JArr xs)"
  then show "map_of (deep_merge_dict base extra) k = Some (JArr xs)"
    by (simp add: unique_keys_def map_of_deep_merge split: option.splits json.splits)
next
  assume "map_of base ''properties'' = Some (JObj [(''row_count'', JInt 10)])"
  then show "map_of (deep_merge_dict base [(''properties'', JObj [(''x'', JInt 1)])])
        ''properties'' = Some (JObj [(''row_count'', JInt 10), (''x'', JInt 1)])"
    by (simp add: update_conv')
qed

theorem deep_merge_dict_witness:
  "map_of (deep_merge_dict generated_item title_override) ''properties'' =
     Some (JObj [(''row_count'', JInt 10), (''x'', JInt 1)]) \<and>
   map_of (deep_merge_dict generated_item title_override) ''id'' = Some (JStr ''20250102T03'') \<and>
   map_of (deep_merge_dict [(''roles'', JArr [JStr ''data''])]
                           [(''roles'', JArr [JStr ''primary''])]) ''roles'' =
     Some (JArr [JStr ''primary'']) \<and>
   map_of (deep_merge_dict generated_item [(''properties'', JObj [(''x'', JInt 1)])])
     ''properties'' = Some (JObj [(''row_count'', JInt 10), (''x'', JInt 1)])"
proof -
  have u: "unique_keys title_override"
    by (simp add: unique_keys_def title_override_def)
  have a: "unique_keys [(''roles'', JArr [JStr ''primary''])] \<and>
      map_of [(''roles'', JArr [JStr ''primary''])] ''roles'' = Some (JArr [JStr ''primary''])"
    by (simp add: unique_keys_def)
  have p: "map_of generated_item ''properties'' = Some (JObj [(''row_count'', JInt 10)])"
    by (simp add: generated_item_def)
  note c1 = deep_merge_dict_spec [where base = generated_item and extra = title_override
      and k = "''properties''", THEN conjunct1, THEN mp, OF u]
  note c1' = deep_merge_dict_spec [where base = generated_item and extra = title_override
      and k = "''id''", THEN conjunct1, THEN mp, OF u]
  note c2 = deep_merge_dict_spec [where base = "[(''roles'', JArr [JStr ''data''])]"
      and extra = "[(''roles'', JArr [JStr ''primary''])]" and k = "''roles''"
      and xs = "[JStr ''primary'']", THEN conjunct2, THEN conjunct1, THEN mp, OF a]
  note c3 = deep_merge_dict_spec [where base = generated_item,
      THEN conjunct2, THEN conjunct2, THEN mp, OF p]
  from c1 c1' c2 c3 show ?thesis
    by (simp add: generated_item_def title_override_def)
qed

text \<open>
  C7: let the generated item carry an \<open>href\<close> for the asset under a key, and let the
  override document (a map with distinct keys, its \<open>assets\<close> a map with distinct keys)
  have for that key a map of asset fields without \<open>href\<close>. Then whenever the override
  block yields a merged item, its asset under that key still carries the generated
  \<open>href\<close>; and it does yield one when the assets of the generated item and of the
  override are all maps.
\<close>

theorem override_keeps_href:
  "unique_keys ov \<and> asset_href base key = Some h \<and>
   map_of ov ''assets'' = Some (JObj oas) \<and> unique_keys oas \<and>
   map_of oas key = Some (JObj ofs) \<and> ''href'' \<notin> fst ` set ofs \<longrightarrow>
     (\<forall>merged. apply_item_overrides base ov = Inr merged \<longrightarrow>
                asset_href merged key = Some h) \<and>
     (assets_are_objects base \<and> list_all is_obj (map snd oas) \<longrightarrow>
        (\<exists>merged. apply_item_overrides base ov = Inr merged))"
  using apply_item_overrides_keeps_href apply_item_overrides_total by blast

theorem override_keeps_href_witness:
  "\<exists>merged. apply_item_overrides generated_item title_override = Inr merged \<and>
     asset_href merged ''data'' = Some (JStr ''../../../assets/parquet/data.parquet'')"
proof -
  have h: "unique_keys title_override \<and>
      asset_href generated_item ''data'' = Some (JStr ''../../../assets/parquet/data.parquet'') \<and>
      map_of title_override ''assets'' =
        Some (JObj [(''data'', JObj [(''title'', JStr ''Winds''),
                                      (''roles'', JArr [JStr ''primary''])])]) \<and>
      unique_keys [(''data'', JObj [(''title'', JStr ''Winds''),
                                    (''roles'', JArr [JStr ''primary''])])] \<and>
      map_of [(''data'', JObj [(''title'', JStr ''Winds''),
                               (''roles'', JArr [JStr ''primary''])])] ''data'' =
        Some (JObj [(''title'', JStr ''Winds''), (''roles'', JArr [JStr ''primary''])]) \<and>
      ''href'' \<notin> fst ` set [(''title'', JStr ''Winds''), (''roles'', JArr [JStr ''primary''])]"
    by (simp add: unique_keys_def title_override_def generated_item_def asset_href_def)
  have t: "assets_are_objects generated_item \<and>
      list_all is_obj (map snd [(''data'', JObj [(''title'', JStr ''Winds''),
                                                 (''roles'', JArr [JStr ''primary''])])])"
    by (simp add: assets_are_objects_def get_assets_def generated_item_def)
  note c = override_keeps_href [THEN mp, OF h]
  from c [THEN conjunct2, THEN mp, OF t] obtain merged
    where m: "apply_item_overrides generated_item title_override = Inr merged" by blast
  with c [THEN conjunct1] have "asset_href merged ''data'' =
      Some (JStr ''../../../assets/parquet/data.parquet'')" by blast
  with m show ?thesis by blast
qed

section \<open>Properties of the extent accumulator\<close>

lemma spatial_update_none: "spatial (update_collection_extent ext None s e) = spatial ext"
  by (simp add: update_collection_extent_def Let_def)

lemma py_min_Num: "py_min (Num a) (Num b) = Num (min a b)"
  by (auto simp: py_min_def min_def)

lemma py_max_Num: "py_max (Num a) (Num b) = Num (max a b)"
  by (auto simp: py_max_def max_def)

lemma spatial_update_nan:
  "spatial ext = nan_bbox \<Longrightarrow>
   spatial (update_collection_extent ext (Some b) s e) = b"
  by (simp add: update_collection_extent_def Let_def nan_bbox_def py_ne_def)

lemma spatial_update_num:
  "spatial ext = of_num_bbox (a0, a1, a2, a3) \<Longrightarrow>
   spatial (update_collection_extent ext (Some (of_num_bbox (b0, b1, b2, b3))) s e) =
     of_num_bbox (min a0 b0, min a1 b1, max a2 b2, max a3 b3)"
  by (simp add: update_collection_extent_def Let_def py_ne_def py_min_Num py_max_Num)

lemma fold_extent_snoc:
  "fold_extent ext (items @ [(b, s, t)]) = update_collection_extent (fold_extent ext items) b s t"
  by (simp add: fold_extent_def)

lemma bbox_union_snoc_none: "bbox_union (boxes @ [None]) = bbox_union boxes"
  by (simp add: bbox_union_def Let_def List.map_filter_def)

lemma bbox_union_first:
  "List.map_filter id boxes = [] \<Longrightarrow> bbox_union (boxes @ [Some b]) = of_num_bbox b"
  by (cases b) (simp add: bbox_union_def Let_def List.map_filter_def)

lemma bbox_union_next:
  assumes "List.map_filter id boxes \<noteq> []"
    and "bbox_union boxes = of_num_bbox (a0, a1, a2, a3)"
  shows "bbox_union (boxes @ [Some (b0, b1, b2, b3)]) =
     of_num_bbox (min a0 b0, min a1 b1, max a2 b2, max a3 b3)"
proof -
  let ?p = "List.map_filter id boxes"
  have fin: "finite (set ?p)" "set ?p \<noteq> {}" using assms(1) by auto
  from assms have a: "a0 = Min (min_x ` set ?p)" "a1 = Min (min_y ` set ?p)"
    "a2 = Max (max_x ` set ?p)" "a3 = Max (max_y ` set ?p)"
    by (simp_all add: bbox_union_def Let_def)
  have p: "List.map_filter id (boxes @ [Some (b0, b1, b2, b3)]) = ?p @ [(b0, b1, b2, b3)]"
    by (simp add: List.map_filter_def)
  show ?thesis
    using fin by (simp add: bbox_union_def Let_def p a min.commute max.commute)
qed

lemma spatial_fold_extent:
  "spatial (fold_extent (create_extent so eo) (map lift_item items)) =
     bbox_union (map fst items)"
proof (induction items rule: rev_induct)
  case Nil
  show ?case
    by (simp add: fold_extent_def create_extent_def bbox_union_def Let_def List.map_filter_def)
next
  case (snoc x items)
  obtain b s t where x: "x = (b, s, t)" by (cases x)
  show ?case
  proof (cases b)
    case None
    with snoc show ?thesis
      by (simp add: x fold_extent_snoc spatial_update_none bbox_union_snoc_none)
  next
    case (Some nb)
    obtain b0 b1 b2 b3 where nb: "nb = (b0, b1, b2, b3)" by (cases nb)
    show ?thesis
    proof (cases "List.map_filter id (map fst items) = []")
      case True
      then have "bbox_union (map fst items) = nan_bbox"
        by (simp add: bbox_union_def Let_def)
      with snoc True show ?thesis
        by (simp add: x Some fold_extent_snoc spatial_update_nan bbox_union_first)
    next
      case False
      then obtain a0 a1 a2 a3 where u: "bbox_union (map fst items) = of_num_bbox (a0, a1, a2, a3)"
        by (simp add: bbox_union_def Let_def)
      with snoc have "spatial (fold_extent (create_extent so eo) (map lift_item items)) =
          of_num_bbox (a0, a1, a2, a3)" by simp
      from spatial_update_num [OF this] bbox_union_next [OF False u] show ?thesis
        by (simp add: x Some nb fold_extent_snoc)
    qed
  qed
qed

lemma bbox_grows:
  assumes "spatial ext = of_num_bbox a"
  shows "\<exists>a'. spatial (update_collection_extent ext (map_option of_num_bbox box) s e) =
            of_num_bbox a' \<and>
          min_x a' \<le> min_x a \<and> min_y a' \<le> min_y a \<and> max_x a \<le> max_x a' \<and> max_y a \<le> max_y a'"
proof (cases box)
  case None
  with assms show ?thesis
    by (intro exI [of _ a]) (simp add: spatial_update_none)
next
  case (Some nb)
  obtain b0 b1 b2 b3 where nb: "nb = (b0, b1, b2, b3)" by (cases nb)
  obtain a0 a1 a2 a3 where a: "a = (a0, a1, a2, a3)" by (cases a)
  from assms have "spatial (update_collection_extent ext (Some (of_num_bbox (b0, b1, b2, b3))) s e) =
     of_num_bbox (min a0 b0, min a1 b1, max a2 b2, max a3 b3)"
    unfolding a by (rule spatial_update_num)
  then show ?thesis
    unfolding Some nb a
    by (intro exI [of _ "(min a0 b0, min a1 b1, max a2 b2, max a3 b3)"]) simp
qed

lemma start_widens:
  "temporal_start ext = Some t \<Longrightarrow>
   \<exists>t'. temporal_start (update_collection_extent ext box s e) = Some t' \<and> t' \<le> t"
  by (auto simp: update_collection_extent_def Let_def split: option.splits)

lemma end_widens:
  "temporal_end ext = Some t \<Longrightarrow>
   \<exists>t'. temporal_end (update_collection_extent ext box s e) = Some t' \<and> t \<le> t'"
  by (auto simp: update_collection_extent_def Let_def split: option.splits)

text \<open>
  C2, as the specification states it, for every sequence of optional bounding boxes. A
  box whose first coordinate is \<open>NaN\<close> is taken for the placeholder by the next update:
  after \<open>(NaN, 0, 5, 5)\<close> the accumulator holds that box, and folding \<open>(1, 1, 2, 2)\<close>
  replaces it, so the maximum x goes from 5 down to 2 and the result is not the
  coordinate-wise union.
\<close>

theorem extent_nan_counterexample:
  "spatial (fold_extent (create_extent None None)
      [(Some (NaN, Num (Fin 0), Num (Fin 5), Num (Fin 5)), None, None)]) =
     (NaN, Num (Fin 0), Num (Fin 5), Num (Fin 5)) \<and>
   spatial (fold_extent (create_extent None None)
      [(Some (NaN, Num (Fin 0), Num (Fin 5), Num (Fin 5)), None, None),
       (Some (Num (Fin 1), Num (Fin 1), Num (Fin 2), Num (Fin 2)), None, None)]) =
     (Num (Fin 1), Num (Fin 1), Num (Fin 2), Num (Fin 2)) \<and>
   py_lt (Num (Fin 2)) (Num (Fin 5))"
  by (simp add: fold_extent_def create_extent_def update_collection_extent_def nan_bbox_def
      py_ne_def less_xfloat_def)

text \<open>
  C2, amended: for every sequence of optional bounding boxes whose coordinates are
  numbers (finite or infinite, not \<open>NaN\<close>) folded into a fresh accumulator, the
  collection bounding box is the coordinate-wise minimum and maximum over exactly the
  boxes that are present, and the \<open>NaN\<close> placeholder when none is. Folding one further
  such box into an accumulator that holds a box without \<open>NaN\<close> gives a box that contains
  it. For any update, a start of the interval that is set stays set and does not
  increase, and an end that is set stays set and does not decrease.
\<close>

theorem extent_accumulates:
  "spatial (fold_extent (create_extent so eo) (map lift_item items)) =
     bbox_union (map fst items) \<and>
   (spatial ext = of_num_bbox a \<longrightarrow>
      (\<exists>a'. spatial (update_collection_extent ext (map_option of_num_bbox box) s e) =
              of_num_bbox a' \<and>
            min_x a' \<le> min_x a \<and> min_y a' \<le> min_y a \<and>
            max_x a \<le> max_x a' \<and> max_y a \<le> max_y a')) \<and>
   (temporal_start ext = Some t \<longrightarrow>
      (\<exists>t'. temporal_start (update_collection_extent ext any_box s e) = Some t' \<and> t' \<le> t)) \<and>
   (temporal_end ext = Some u \<longrightarrow>
      (\<exists>u'. temporal_end (update_collection_extent ext any_box s e) = Some u' \<and> u \<le> u'))"
  using spatial_fold_extent bbox_grows start_widens end_widens by blast

theorem extent_accumulates_witness:
  "spatial (fold_extent (create_extent None None) (map lift_item two_partitions)) =
     (Num (Fin 0), Num (Fin 0), Num (Fin 2), Num (Fin 2)) \<and>
   (\<exists>a'. spatial (update_collection_extent unit_extent
                    (map_option of_num_bbox (Some (Fin 1, Fin 1, Fin 2, Fin 2)))
                    (Some (Aware 8 3)) (Some (Aware 33 3))) = of_num_bbox a' \<and>
         min_x a' \<le> Fin 0 \<and> min_y a' \<le> Fin 0 \<and> Fin 1 \<le> max_x a' \<and> Fin 1 \<le> max_y a') \<and>
   (\<exists>t'. temporal_start (update_collection_extent unit_extent
                           (Some (NaN, NaN, NaN, NaN))
                           (Some (Aware 8 3)) (Some (Aware 33 3))) = Some t' \<and> t' \<le> 10) \<and>
   (\<exists>u'. temporal_end (update_collection_extent unit_extent
                         (Some (NaN, NaN, NaN, NaN))
                         (Some (Aware 8 3)) (Some (Aware 33 3))) = Some u' \<and> 20 \<le> u')"
proof -
  have sp: "spatial unit_extent = of_num_bbox (Fin 0, Fin 0, Fin 1, Fin 1)"
    and ts: "temporal_start unit_extent = Some 10"
    and te: "temporal_end unit_extent = Some 20"
    by (simp_all add: unit_extent_def)
  note spec = extent_accumulates [where so = None and eo = None and items = two_partitions
      and ext = unit_extent and a = "(Fin 0, Fin 0, Fin 1, Fin 1)"
      and box = "Some (Fin 1, Fin 1, Fin 2, Fin 2)" and s = "Some (Aware 8 3)"
      and e = "Some (Aware 33 3)" and t = 10 and u = 20 and any_box = "Some (NaN, NaN, NaN, NaN)"]
  have un: "bbox_union (map fst two_partitions) =
      (Num (Fin 0), Num (Fin 0), Num (Fin 2), Num (Fin 2))"
    by (simp add: bbox_union_def two_partitions_def List.map_filter_def)
  note c1 = spec [THEN conjunct1]
  note c2 = spec [THEN conjunct2, THEN conjunct1, THEN mp, OF sp]
  note c3 = spec [THEN conjunct2, THEN conjunct2, THEN conjunct1, THEN mp, OF ts]
  note c4 = spec [THEN conjunct2, THEN conjunct2, THEN conjunct2, THEN mp, OF te]
  from c1 un c2 c3 c4 show ?thesis
    by simp
qed

section \<open>Properties of the bounding-box scan\<close>

lemma scan_row_groups_empty:
  "\<forall>rg \<in> set rgs. \<forall>col. rg col = [] \<Longrightarrow>
   scan_row_groups array_min array_max lon_col lat_col acc rgs = Inr acc"
proof (induction rgs)
  case Nil
  then show ?case by simp
next
  case (Cons rg rgs)
  obtain a b c d where acc: "acc = (a, b, c, d)" by (cases acc)
  from Cons show ?case
    by (simp add: acc)
qed

lemma scan_empty:
  assumes "\<forall>rg \<in> set (row_groups pf). \<forall>col. rg col = []"
  shows "scan_lon_lat_bbox array_min array_max pf = Inr None"
  using scan_row_groups_empty [OF assms]
  by (simp add: scan_lon_lat_bbox_def bind_err_def float_inf_def split: option.splits)

text \<open>
  C10: a file without rows, whatever its columns and whatever numpy's minimum and
  maximum do on other arrays, gives no bounding box from the fallback scan: every row
  group is passed over, the running minimum is still the sentinel \<open>inf\<close>, and the
  function returns \<open>None\<close>. Folding that result into the extent
  accumulator leaves the collection bounding box as it was.
\<close>

theorem scan_lon_lat_bbox_empty:
  "(\<forall>rg \<in> set (row_groups pf). \<forall>col. rg col = []) \<longrightarrow>
     scan_lon_lat_bbox array_min array_max pf = Inr None \<and>
     (\<forall>b. scan_lon_lat_bbox array_min array_max pf = Inr b \<longrightarrow>
          spatial (update_collection_extent ext b s e) = spatial ext)"
  by (auto simp: scan_empty spatial_update_none)

theorem scan_lon_lat_bbox_empty_witness:
  "find (\<lambda>col. col \<in> set (schema_names empty_parquet)) [''lon'', ''longitude'', ''x''] =
     Some ''x'' \<and>
   find (\<lambda>col. col \<in> set (schema_names empty_parquet)) [''lat'', ''latitude'', ''y''] =
     Some ''y'' \<and>
   length (row_groups empty_parquet) = 2 \<and>
   scan_lon_lat_bbox (\<lambda>arr. Inr (Num NegInf)) (\<lambda>arr. Inr (Num PosInf)) empty_parquet =
     Inr None \<and>
   spatial (update_collection_extent unit_extent None None None) = spatial unit_extent"
proof -
  have h: "\<forall>rg \<in> set (row_groups empty_parquet). \<forall>col. rg col = []"
    by (simp add: empty_parquet_def)
  note c = scan_lon_lat_bbox_empty [where pf = empty_parquet and ext = unit_extent
      and s = None and e = None and array_min = "\<lambda>arr. Inr (Num NegInf)"
      and array_max = "\<lambda>arr. Inr (Num PosInf)", THEN mp, OF h]
  from c show ?thesis
    by (simp add: empty_parquet_def)
qed

section \<open>Properties of the temporal bounds\<close>

lemma fold_min_Min: "fold min vs v = Min (set (v # vs))"
  by (simp only: Min.set_eq_fold)

lemma fold_max_Max: "fold max vs v = Max (set (v # vs))"
  by (simp only: Max.set_eq_fold)

lemma bounds_loop_find:
  "bounds_loop f pf (filter (\<lambda>c. list_all (\<lambda>n. n \<in> set (schema_names pf)) c) cands) =
     (case find (usable f pf) cands of
        None \<Rightarrow> (None, None)
      | Some names \<Rightarrow> bounds_of f pf names)"
proof (induction cands)
  case Nil
  show ?case by simp
next
  case (Cons c cands)
  note IH = Cons.IH
  let ?present = "\<lambda>c. list_all (\<lambda>n. n \<in> set (schema_names pf)) c"
  show ?case
  proof (cases "?present c")
    case False
    then have "\<not> usable f pf c" by (simp add: usable_def)
    with False IH show ?thesis by simp
  next
    case present: True
    show ?thesis
    proof (cases c)
      case Nil
      then have "\<not> usable f pf c" by (simp add: usable_def)
      moreover have "bounds_loop f pf (c # rest) = bounds_loop f pf rest" for rest
        by (simp add: Nil)
      ultimately show ?thesis using present IH by simp
    next
      case c: (Cons a as)
      show ?thesis
      proof (cases "length c = 2")
        case two: True
        with c obtain b where c2: "c = [a, b]"
          by (cases as) (auto simp: length_Suc_conv)
        have step: "bounds_loop f pf (c # rest) =
            (case (parse_array f (read_column pf a), parse_array f (read_column pf b)) of
               (x # xs, y # ys) \<Rightarrow> (Some (fold min xs x), Some (fold max ys y))
             | _ \<Rightarrow> bounds_loop f pf rest)" for rest
          by (simp add: c2)
        show ?thesis
        proof (cases "usable f pf c")
          case True
          then obtain x xs y ys where p: "parse_array f (read_column pf a) = x # xs"
            "parse_array f (read_column pf b) = y # ys"
            unfolding c2 usable_def
            by (cases "parse_array f (read_column pf a)"; cases "parse_array f (read_column pf b)")
               auto
          have "bounds_of f pf c = (Some (fold min xs x), Some (fold max ys y))"
            by (simp add: c2 bounds_of_def column_instants_def p fold_min_Min fold_max_Max)
          with True present p show ?thesis
            by (simp add: step)
        next
          case False
          with present
          have "parse_array f (read_column pf a) = [] \<or> parse_array f (read_column pf b) = []"
            by (auto simp: c2 usable_def)
          then have "bounds_loop f pf (c # rest) = bounds_loop f pf rest" for rest
            by (auto simp: step split: list.splits)
          with False present IH show ?thesis
            by simp
        qed
      next
        case other: False
        with c have shape: "as = [] \<or> (\<exists>b d ds. as = b # d # ds)"
          by (cases as; cases "tl as") auto
        then have step: "bounds_loop f pf (c # rest) =
            (case parse_array f (read_column pf a) of
               v # vs \<Rightarrow> (Some (fold min vs v), Some (fold max vs v))
             | [] \<Rightarrow> bounds_loop f pf rest)" for rest
          by (auto simp: c)
        have us: "usable f pf c \<longleftrightarrow> parse_array f (read_column pf a) \<noteq> []"
          using present other by (simp add: usable_def c)
        show ?thesis
        proof (cases "parse_array f (read_column pf a)")
          case Nil
          with us have "\<not> usable f pf c" by simp
          with present IH Nil show ?thesis
            by (simp add: step)
        next
          case (Cons v vs)
          with us have u: "usable f pf c" by simp
          have "bounds_of f pf c = (Some (fold min vs v), Some (fold max vs v))"
            using other
            by (simp add: c bounds_of_def column_instants_def Cons fold_min_Min fold_max_Max)
          with u present Cons show ?thesis
            by (simp add: step)
        qed
      qed
    qed
  qed
qed

lemma read_timestamp_bounds_find:
  "read_timestamp_bounds f pf =
     (case find (usable f pf) col_candidates of
        None \<Rightarrow> (None, None)
      | Some names \<Rightarrow> bounds_of f pf names)"
  by (simp add: read_timestamp_bounds_def bounds_loop_find)

lemma usable_single:
  "usable f pf [col] \<longleftrightarrow>
     col \<in> set (schema_names pf) \<and> parse_array f (read_column pf col) \<noteq> []"
  by (simp add: usable_def)

lemma bounds_of_single:
  "bounds_of f pf [col] =
     (Some (Min (column_instants f pf col)), Some (Max (column_instants f pf col)))"
  by (simp add: bounds_of_def)

lemma bounds_of_pair:
  "bounds_of f pf [a, b] =
     (Some (Min (column_instants f pf a)), Some (Max (column_instants f pf b)))"
  by (simp add: bounds_of_def)

text \<open>
  C4, as the specification states it: with a usable pair and a usable single column the
  pair is selected. The candidate list has the pair last: a file with a \<open>timestamp\<close>
  column holding the instant 5 and the columns \<open>start_datetime\<close> and \<open>end_datetime\<close>
  holding 1 and 9 gets the bounds \<open>(5, 5)\<close> of the single column, not \<open>(1, 9)\<close>.
\<close>

theorem paired_columns_counterexample:
  "usable no_parser paired_and_single [''start_datetime'', ''end_datetime''] \<and>
   usable no_parser paired_and_single [''timestamp''] \<and>
   bounds_of no_parser paired_and_single [''start_datetime'', ''end_datetime''] =
     (Some 1, Some 9) \<and>
   read_timestamp_bounds no_parser paired_and_single = (Some 5, Some 5)"
  by (simp add: usable_def bounds_of_def column_instants_def paired_and_single_def
      read_column_def read_timestamp_bounds_def col_candidates_def)

text \<open>
  C4, amended: the candidates are tried in the order \<open>timestamp\<close>, \<open>datetime\<close>, \<open>time\<close>,
  \<open>date\<close>, then the pair \<open>start_datetime\<close>/\<open>end_datetime\<close>, and the first usable one
  decides. So the first usable single column, whether or not the pair is usable, gives
  the minimum and the maximum of its own values; the pair is selected only when no
  single column is usable, and then gives the minimum of the start values and the
  maximum of the end values. Values are UTC instants: a naive datetime is read as UTC,
  an aware one is converted.
\<close>

theorem read_timestamp_bounds_order:
  "col_candidates =
     [[''timestamp''], [''datetime''], [''time''], [''date''],
      [''start_datetime'', ''end_datetime'']] \<and>
   read_timestamp_bounds f pf =
     (case find (usable f pf) col_candidates of
        None \<Rightarrow> (None, None)
      | Some names \<Rightarrow> bounds_of f pf names) \<and>
   (single \<in> set [''timestamp'', ''datetime'', ''time'', ''date''] \<and> usable f pf [single] \<and>
    (\<forall>earlier \<in> set (takeWhile (\<lambda>n. n \<noteq> single) [''timestamp'', ''datetime'', ''time'', ''date'']).
       \<not> usable f pf [earlier]) \<longrightarrow>
      read_timestamp_bounds f pf =
        (Some (Min (column_instants f pf single)), Some (Max (column_instants f pf single)))) \<and>
   ((\<forall>single \<in> set [''timestamp'', ''datetime'', ''time'', ''date'']. \<not> usable f pf [single]) \<and>
    usable f pf [''start_datetime'', ''end_datetime''] \<longrightarrow>
      read_timestamp_bounds f pf =
        (Some (Min (column_instants f pf ''start_datetime'')),
         Some (Max (column_instants f pf ''end_datetime'')))) \<and>
   parse_array f (CDatetime (Naive w) # CDatetime (Aware w' off) # cells) =
     w # (w' - off) # parse_array f cells"
proof (intro conjI impI)
  show "col_candidates =
     [[''timestamp''], [''datetime''], [''time''], [''date''],
      [''start_datetime'', ''end_datetime'']]"
    by (simp add: col_candidates_def)
  show "read_timestamp_bounds f pf =
     (case find (usable f pf) col_candidates of
        None \<Rightarrow> (None, None)
      | Some names \<Rightarrow> bounds_of f pf names)"
    by (rule read_timestamp_bounds_find)
  show "parse_array f (CDatetime (Naive w) # CDatetime (Aware w' off) # cells) =
     w # (w' - off) # parse_array f cells"
    by simp
next
  assume a: "single \<in> set [''timestamp'', ''datetime'', ''time'', ''date''] \<and>
    usable f pf [single] \<and>
    (\<forall>earlier \<in> set (takeWhile (\<lambda>n. n \<noteq> single) [''timestamp'', ''datetime'', ''time'', ''date'']).
       \<not> usable f pf [earlier])"
  then consider "single = ''timestamp''" | "single = ''datetime''" | "single = ''time''"
    | "single = ''date''" by auto
  then have "find (usable f pf) col_candidates = Some [single]"
  proof cases
    case 1
    with a show ?thesis by (simp add: col_candidates_def)
  next
    case 2
    with a show ?thesis by (simp add: col_candidates_def)
  next
    case 3
    with a show ?thesis by (simp add: col_candidates_def)
  next
    case 4
    with a show ?thesis by (simp add: col_candidates_def)
  qed
  then show "read_timestamp_bounds f pf =
        (Some (Min (column_instants f pf single)), Some (Max (column_instants f pf single)))"
    by (simp add: read_timestamp_bounds_find bounds_of_single)
next
  assume "(\<forall>single \<in> set [''timestamp'', ''datetime'', ''time'', ''date'']. \<not> usable f pf [single]) \<and>
    usable f pf [''start_datetime'', ''end_datetime'']"
  then have "find (usable f pf) col_candidates = Some [''start_datetime'', ''end_datetime'']"
    by (simp add: col_candidates_def)
  then show "read_timestamp_bounds f pf =
        (Some (Min (column_instants f pf ''start_datetime'')),
         Some (Max (column_instants f pf ''end_datetime'')))"
    by (simp add: read_timestamp_bounds_find bounds_of_pair)
qed

theorem read_timestamp_bounds_witness:
  "read_timestamp_bounds no_parser paired_and_single = (Some 5, Some 5) \<and>
   read_timestamp_bounds no_parser paired_only = (Some 1, Some 9)"
proof -
  have s: "''timestamp'' \<in> set [''timestamp'', ''datetime'', ''time'', ''date''] \<and>
      usable no_parser paired_and_single [''timestamp''] \<and>
      (\<forall>earlier \<in> set (takeWhile (\<lambda>n. n \<noteq> ''timestamp'')
                          [''timestamp'', ''datetime'', ''time'', ''date'']).
         \<not> usable no_parser paired_and_single [earlier])"
    by (simp add: usable_def paired_and_single_def read_column_def)
  have p: "(\<forall>single \<in> set [''timestamp'', ''datetime'', ''time'', ''date''].
         \<not> usable no_parser paired_only [single]) \<and>
      usable no_parser paired_only [''start_datetime'', ''end_datetime'']"
    by (simp add: usable_def paired_only_def read_column_def)
  have v1: "column_instants no_parser paired_and_single ''timestamp'' = {5}"
    by (simp add: column_instants_def paired_and_single_def read_column_def)
  have v2: "column_instants no_parser paired_only ''start_datetime'' = {4, 1}"
    "column_instants no_parser paired_only ''end_datetime'' = {9}"
    by (simp_all add: column_instants_def paired_only_def read_column_def)
  note c3 = read_timestamp_bounds_order [where f = no_parser and pf = paired_and_single
      and single = "''timestamp''", THEN conjunct2, THEN conjunct2, THEN conjunct1, THEN mp, OF s]
  note c4 = read_timestamp_bounds_order [where f = no_parser and pf = paired_only,
      THEN conjunct2, THEN conjunct2, THEN conjunct2, THEN conjunct1, THEN mp, OF p]
  from c3 c4 v1 v2 show ?thesis
    by simp
qed

section \<open>Properties of the builder\<close>

lemma process_metadata_parquet [simp]:
  "parquet_catalog (process_metadata env r i st) = parquet_catalog st"
  "existing_parquet_ids (process_metadata env r i st) = existing_parquet_ids st"
  by (simp_all add: process_metadata_def log_copy_def Let_def)

lemma process_plots_parquet [simp]:
  "parquet_catalog (process_plots env r i infos st) = parquet_catalog st \<and>
   existing_parquet_ids (process_plots env r i infos st) = existing_parquet_ids st"
  by (induction env r i infos st rule: process_plots.induct)
     (simp_all add: log_copy_def Let_def)

lemma process_record_skip:
  "incremental env \<Longrightarrow> make_item_id r \<in> existing_parquet_ids st \<Longrightarrow>
   process_record env st r = Inr st"
  by (simp add: process_record_def)

lemma process_record_fatal:
  "\<not> (incremental env \<and> make_item_id r \<in> existing_parquet_ids st) \<Longrightarrow>
   \<not> copy_from_fs env DataAsset (relative_path r) \<Longrightarrow>
   process_record env st r = Inl (CopyFailed (relative_path r))"
  by (auto simp: process_record_def)

lemma process_record_total:
  "copy_from_fs env DataAsset (relative_path r) \<Longrightarrow> \<exists>st'. process_record env st r = Inr st'"
  by (simp add: process_record_def Let_def)

lemma process_records_append:
  "process_records env st (rs @ rs') =
     bind_err (process_records env st rs) (\<lambda>st'. process_records env st' rs')"
  by (induction rs arbitrary: st) (simp_all add: bind_err_def split: sum.splits)

lemma process_records_fatal:
  assumes "process_records env st rs = Inr st'"
    and "\<not> (incremental env \<and> make_item_id r \<in> existing_parquet_ids st')"
    and "\<not> copy_from_fs env DataAsset (relative_path r)"
  shows "process_records env st (rs @ r # rs') = Inl (CopyFailed (relative_path r))"
  using assms(1) process_record_fatal [OF assms(2,3)]
  by (simp add: process_records_append bind_err_def)

lemma process_records_total:
  "\<forall>r \<in> set rs. copy_from_fs env DataAsset (relative_path r) \<Longrightarrow>
   \<exists>st'. process_records env st rs = Inr st'"
proof (induction rs arbitrary: st)
  case Nil
  then show ?case by simp
next
  case (Cons r rs)
  then obtain st1 where "process_record env st r = Inr st1"
    using process_record_total [of env r st] by auto
  with Cons show ?case
    by (simp add: bind_err_def)
qed

lemma process_records_skip_all:
  "incremental env \<Longrightarrow> \<forall>r \<in> set rs. make_item_id r \<in> existing_parquet_ids st \<Longrightarrow>
   process_records env st rs = Inr st"
  by (induction rs) (simp_all add: process_record_skip bind_err_def)

lemma process_record_known:
  assumes "process_record env st r = Inr st'"
  shows "make_item_id r \<in> existing_parquet_ids st' \<and>
         existing_parquet_ids st \<subseteq> existing_parquet_ids st'"
  using assms
  by (auto simp: process_record_def Let_def log_copy_def split: if_splits)

lemma process_records_known:
  "process_records env st rs = Inr st' \<Longrightarrow>
   (\<forall>r \<in> set rs. make_item_id r \<in> existing_parquet_ids st') \<and>
   existing_parquet_ids st \<subseteq> existing_parquet_ids st'"
proof (induction rs arbitrary: st)
  case Nil
  then show ?case by simp
next
  case (Cons r rs)
  then obtain st1 where 1: "process_record env st r = Inr st1"
    and 2: "process_records env st1 rs = Inr st'"
    by (auto simp: bind_err_def split: sum.splits)
  from process_record_known [OF 1] Cons.IH [OF 2] show ?case
    by auto
qed


lemma final_id_none [simp]: "override_id env = None \<Longrightarrow> final_id env i = i"
  by (simp add: final_id_def)

lemma process_metadata_consistent:
  "incremental env \<Longrightarrow> override_id env = None \<Longrightarrow> ids_consistent st \<Longrightarrow>
   ids_consistent (process_metadata env r i st)"
  by (auto simp: ids_consistent_def process_metadata_def log_copy_def Let_def)

lemma process_plots_consistent:
  "incremental env \<Longrightarrow> override_id env = None \<Longrightarrow> ids_consistent st \<Longrightarrow>
   ids_consistent (process_plots env r i infos st)"
proof (induction env r i infos st rule: process_plots.induct)
  case (1 env r item_id st)
  then show ?case by simp
next
  case (2 env r item_id is_file name infos st)
  let ?rel = "path_parent (relative_path r) @ [name]"
  let ?st1 = "log_copy PlotAsset ?rel True st"
  let ?pid = "item_id @ ''-plot-'' @ name_stem name"
  have c0: "ids_consistent (log_copy PlotAsset ?rel False st)"
    and c1: "ids_consistent ?st1"
    using "2.prems"(3) by (simp_all add: ids_consistent_def log_copy_def)
  have c2: "?pid \<notin> existing_plot_ids ?st1 \<Longrightarrow>
      ids_consistent (?st1\<lparr>plots_catalog := plots_catalog ?st1 @ [final_id env ?pid],
          existing_plot_ids := insert (final_id env ?pid) (existing_plot_ids ?st1)\<rparr>)"
    using c1 "2.prems"(2) by (auto simp: ids_consistent_def)
  show ?case
  proof (cases "\<not> is_file \<or> \<not> suffix ''.png'' (lower name)")
    case True
    with "2.IH"(1,2) "2.prems" show ?thesis by auto
  next
    case False
    then have f: "is_file" "suffix ''.png'' (lower name)" by auto
    show ?thesis
    proof (cases "copy_from_fs env PlotAsset ?rel")
      case False
      with f "2.IH"(3) [OF _ _ refl] "2.prems" c0 show ?thesis
        by simp
    next
      case True
      show ?thesis
      proof (cases "?pid \<in> existing_plot_ids ?st1")
        case known: True
        with f True "2.IH"(4) [OF _ _ refl _ refl refl] "2.prems" c1 show ?thesis
          by (simp add: Let_def)
      next
        case fresh: False
        with f True "2.IH"(5) [OF _ _ refl _ refl refl] "2.prems" c2 show ?thesis
          by (simp add: Let_def)
      qed
    qed
  qed
qed

lemma process_record_consistent:
  assumes "incremental env" and "override_id env = None" and "ids_consistent st"
    and "process_record env st r = Inr st'"
  shows "ids_consistent st'"
proof (cases "make_item_id r \<in> existing_parquet_ids st")
  case True
  with assms show ?thesis by (simp add: process_record_def)
next
  case False
  let ?st1 = "(log_copy DataAsset (relative_path r) True st)
                \<lparr>parquet_catalog := parquet_catalog st @ [final_id env (make_item_id r)],
                 existing_parquet_ids := insert (make_item_id r) (existing_parquet_ids st)\<rparr>"
  from False assms(2,3) have "ids_consistent ?st1"
    by (auto simp: ids_consistent_def log_copy_def)
  from process_metadata_consistent [OF assms(1,2) this]
  have 2: "ids_consistent (process_metadata env r (make_item_id r) ?st1)" .
  from process_plots_consistent [OF assms(1,2) 2]
  have 3: "ids_consistent (process_plots env r (make_item_id r) infos
      (process_metadata env r (make_item_id r) ?st1))" for infos .
  from assms(4) False 2 3 show ?thesis
    by (auto simp: process_record_def Let_def split: if_splits)
qed

lemma process_records_consistent:
  "incremental env \<Longrightarrow> override_id env = None \<Longrightarrow> ids_consistent st \<Longrightarrow>
   process_records env st rs = Inr st' \<Longrightarrow> ids_consistent st'"
proof (induction rs arbitrary: st)
  case Nil
  then show ?case by simp
next
  case (Cons r rs)
  from Cons.prems(4) obtain st1 where 1: "process_record env st r = Inr st1"
    and 2: "process_records env st1 rs = Inr st'"
    by (auto simp: bind_err_def split: sum.splits)
  from process_record_consistent [OF Cons.prems(1,2,3) 1]
  show ?case by (rule Cons.IH [OF Cons.prems(1,2) _ 2])
qed

lemma process_record_parquet_known:
  assumes "override_id env = None" and "existing_parquet_ids st = set (parquet_catalog st)"
    and "process_record env st r = Inr st'"
  shows "existing_parquet_ids st' = set (parquet_catalog st')"
  using assms
  by (auto simp: process_record_def Let_def log_copy_def split: if_splits)

lemma process_records_parquet_known:
  "override_id env = None \<Longrightarrow> existing_parquet_ids st = set (parquet_catalog st) \<Longrightarrow>
   process_records env st rs = Inr st' \<Longrightarrow>
   existing_parquet_ids st' = set (parquet_catalog st')"
proof (induction rs arbitrary: st)
  case Nil
  then show ?case by simp
next
  case (Cons r rs)
  from Cons.prems(3) obtain st1 where 1: "process_record env st r = Inr st1"
    and 2: "process_records env st1 rs = Inr st'"
    by (auto simp: bind_err_def split: sum.splits)
  from process_record_parquet_known [OF Cons.prems(1,2) 1]
  show ?case by (rule Cons.IH [OF Cons.prems(1) _ 2])
qed

lemma build_result:
  assumes "build_items_and_collection env prior = Inr st"
  shows "root_is_directory env" and "records env \<noteq> []"
    and "process_records env (initial_state env prior) (records env) = Inr st"
  using assms by (auto simp: build_items_and_collection_def split: if_splits)

lemma initial_state_parquet_known:
  "existing_parquet_ids (initial_state env prior) = set (parquet_catalog (initial_state env prior))"
  by (simp add: initial_state_def)

lemma rerun_skips_everything:
  assumes "override_id env = None" and "build_items_and_collection env prior = Inr st1"
    and "incremental env'" and "root_is_directory env'" and "records env' = records env"
  shows "build_items_and_collection env' (persist st1) = Inr (initial_state env' (persist st1))"
proof -
  note b = build_result [OF assms(2)]
  from process_records_parquet_known [OF assms(1) initial_state_parquet_known b(3)]
  have k: "existing_parquet_ids st1 = set (parquet_catalog st1)" .
  from process_records_known [OF b(3)]
  have "\<forall>r \<in> set (records env). make_item_id r \<in> existing_parquet_ids st1" by simp
  with k assms(3)
  have "\<forall>r \<in> set (records env).
      make_item_id r \<in> existing_parquet_ids (initial_state env' (persist st1))"
    by (simp add: initial_state_def persist_def)
  from process_records_skip_all [OF assms(3) this] assms(4,5) b(2) show ?thesis
    by (simp add: build_items_and_collection_def)
qed

lemma first_run_distinct:
  assumes "incremental env" and "override_id env = None"
    and "build_items_and_collection env prior = Inr st1"
    and "distinct (parquet_item_ids prior)" and "distinct (metadata_item_ids prior)"
    and "distinct (plot_item_ids prior)"
  shows "distinct (parquet_catalog st1) \<and> distinct (metadata_catalog st1) \<and>
         distinct (plots_catalog st1)"
proof -
  from assms(1,4-6) have "ids_consistent (initial_state env prior)"
    by (simp add: ids_consistent_def initial_state_def)
  from process_records_consistent [OF assms(1,2) this build_result(3) [OF assms(3)]]
  show ?thesis by (simp add: ids_consistent_def)
qed

lemma process_plots_log_irrelevant:
  "plots_catalog st = plots_catalog st' \<Longrightarrow> existing_plot_ids st = existing_plot_ids st' \<Longrightarrow>
   plots_catalog (process_plots env r i infos st) =
     plots_catalog (process_plots env r i infos st') \<and>
   existing_plot_ids (process_plots env r i infos st) =
     existing_plot_ids (process_plots env r i infos st')"
proof (induction infos arbitrary: st st')
  case Nil
  then show ?case by simp
next
  case (Cons a infos)
  obtain is_file name where a: "a = (is_file, name)" by (cases a)
  let ?rel = "path_parent (relative_path r) @ [name]"
  let ?pid = "i @ ''-plot-'' @ name_stem name"
  let ?add = "\<lambda>s. (log_copy PlotAsset ?rel True s)
      \<lparr>plots_catalog := plots_catalog (log_copy PlotAsset ?rel True s) @ [final_id env ?pid],
       existing_plot_ids :=
         insert (final_id env ?pid) (existing_plot_ids (log_copy PlotAsset ?rel True s))\<rparr>"
  have 1: "plots_catalog (log_copy PlotAsset ?rel ok st) =
        plots_catalog (log_copy PlotAsset ?rel ok st')"
    "existing_plot_ids (log_copy PlotAsset ?rel ok st) =
        existing_plot_ids (log_copy PlotAsset ?rel ok st')" for ok
    using Cons.prems by (simp_all add: log_copy_def)
  have 2: "plots_catalog (?add st) = plots_catalog (?add st')"
    "existing_plot_ids (?add st) = existing_plot_ids (?add st')"
    using Cons.prems by (simp_all add: log_copy_def)
  from Cons.IH [OF Cons.prems] Cons.IH [OF 1] Cons.IH [OF 2] 1 show ?case
    by (simp add: a Let_def)
qed

lemma process_plots_append:
  "process_plots env r i (xs @ ys) st = process_plots env r i ys (process_plots env r i xs st)"
proof (induction xs arbitrary: st)
  case Nil
  show ?case by simp
next
  case (Cons a xs)
  obtain is_file name where a: "a = (is_file, name)" by (cases a)
  show ?case
    by (simp add: a Cons.IH Let_def)
qed

lemma process_plots_failed_entry:
  assumes "\<not> copy_from_fs env PlotAsset (path_parent (relative_path r) @ [name])"
  shows "plots_catalog (process_plots env r i (xs @ (is_file, name) # ys) st) =
           plots_catalog (process_plots env r i (xs @ ys) st) \<and>
         existing_plot_ids (process_plots env r i (xs @ (is_file, name) # ys) st) =
           existing_plot_ids (process_plots env r i (xs @ ys) st)"
proof -
  let ?mid = "process_plots env r i xs st"
  let ?one = "process_plots env r i [(is_file, name)] ?mid"
  from assms have "plots_catalog ?one = plots_catalog ?mid"
    "existing_plot_ids ?one = existing_plot_ids ?mid"
    by (simp_all add: log_copy_def Let_def)
  from process_plots_log_irrelevant [OF this, of env r i ys]
  have "plots_catalog (process_plots env r i ys ?one) =
      plots_catalog (process_plots env r i ys ?mid) \<and>
    existing_plot_ids (process_plots env r i ys ?one) =
      existing_plot_ids (process_plots env r i ys ?mid)" .
  moreover have "process_plots env r i (xs @ (is_file, name) # ys) st =
      process_plots env r i ys ?one"
    using process_plots_append [of env r i xs "(is_file, name) # ys" st]
      process_plots_append [of env r i "[(is_file, name)]" ys ?mid] by simp
  ultimately show ?thesis
    by (simp add: process_plots_append)
qed

lemma process_record_catalogs_item:
  assumes "\<not> (incremental env \<and> make_item_id r \<in> existing_parquet_ids st)"
    and "copy_from_fs env DataAsset (relative_path r)"
  shows "\<exists>st'. process_record env st r = Inr st' \<and>
     parquet_catalog st' = parquet_catalog st @ [final_id env (make_item_id r)]"
  using assms by (auto simp: process_record_def Let_def log_copy_def)

lemma process_plots_metadata [simp]:
  "metadata_catalog (process_plots env r i infos st) = metadata_catalog st"
  by (induction env r i infos st rule: process_plots.induct)
     (simp_all add: log_copy_def Let_def)

lemma process_record_metadata_failed:
  assumes "\<not> (incremental env \<and> make_item_id r \<in> existing_parquet_ids st)"
    and "copy_from_fs env DataAsset (relative_path r)"
    and "\<not> copy_from_fs env MetadataAsset (path_parent (relative_path r) @ [''metadata.json''])"
  shows "\<exists>st'. process_record env st r = Inr st' \<and>
     metadata_catalog st' = metadata_catalog st \<and>
     plots_catalog st' =
       plots_catalog (process_plots env r (make_item_id r)
         (if plots_prefix env then plot_infos env (path_parent (relative_path r)) else []) st)"
proof -
  let ?st1 = "(log_copy DataAsset (relative_path r) True st)
                \<lparr>parquet_catalog := parquet_catalog st @ [final_id env (make_item_id r)],
                 existing_parquet_ids := insert (make_item_id r) (existing_parquet_ids st)\<rparr>"
  let ?st2 = "process_metadata env r (make_item_id r) ?st1"
  from assms(3) have m: "metadata_catalog ?st2 = metadata_catalog st"
    "plots_catalog ?st2 = plots_catalog st" "existing_plot_ids ?st2 = existing_plot_ids st"
    by (simp_all add: process_metadata_def log_copy_def Let_def)
  from process_plots_log_irrelevant [OF m(2,3)]
  have "plots_catalog (process_plots env r (make_item_id r) infos ?st2) =
      plots_catalog (process_plots env r (make_item_id r) infos st)" for infos
    by blast
  with assms(1,2) m show ?thesis
    by (auto simp: process_record_def Let_def)
qed

lemma first_run_evaluated:
  "build_items_and_collection incremental_env no_prior = Inr first_run_state"
  by (simp add: build_items_and_collection_def incremental_env_def no_prior_def
      initial_state_def example_record_def example_path_def process_record_def make_item_id_def
      process_metadata_def log_copy_def final_id_def path_parent_def is_root_def bind_err_def
      Let_def first_run_state_def lower_def lower_char_def name_stem_def rfind_def
      suffix_to_prefix)

text \<open>
  C5, as the specification states it: the failed copy of a metadata sidecar or of a plot
  image aborts the run. With one partition whose data file copies and whose sidecar and
  plot do not, the run finishes: the data item is cataloged, the two failed copies are
  in the log, and no metadata or plot item is created.
\<close>

theorem companion_copy_failure_counterexample:
  "\<not> copy_from_fs companions_fail_env MetadataAsset
       [''year=2025'', ''month=01'', ''day=02'', ''hour=03'', ''metadata.json''] \<and>
   \<not> copy_from_fs companions_fail_env PlotAsset
       [''year=2025'', ''month=01'', ''day=02'', ''hour=03'', ''grid_points.png''] \<and>
   build_items_and_collection companions_fail_env no_prior =
     Inr \<lparr>parquet_catalog = [''20250102T03''], metadata_catalog = [], plots_catalog = [],
          existing_parquet_ids = {''20250102T03''}, existing_metadata_ids = {},
          existing_plot_ids = {},
          copy_log =
            [(DataAsset, example_path, True),
             (MetadataAsset,
              [''year=2025'', ''month=01'', ''day=02'', ''hour=03'', ''metadata.json''], False),
             (PlotAsset,
              [''year=2025'', ''month=01'', ''day=02'', ''hour=03'', ''grid_points.png''],
              False)]\<rparr>"
  by (simp add: build_items_and_collection_def companions_fail_env_def no_prior_def
      initial_state_def example_record_def example_path_def process_record_def make_item_id_def
      process_metadata_def log_copy_def final_id_def path_parent_def is_root_def bind_err_def
      Let_def lower_def lower_char_def suffix_to_prefix)

text \<open>
  C5, amended: the failed copy of a data file that is processed (reached by the loop and
  not passed over as known) aborts the whole run with the copy failure. The failed copy
  of a metadata sidecar or of a plot image does not. When the root is a directory with
  at least one asset and the copies of the data files succeed, the run finishes whatever
  the outcome of the other copies. A data file that is copied is cataloged. A failed
  sidecar copy leaves the metadata catalog as it was and the plots of the record are
  processed as without it. A failed plot copy leaves out that plot alone: the plots
  catalog and the known plot identifiers come out as if the entry were not in the
  listing, whatever stands before and after it.
\<close>

theorem copy_failure_fatality:
  "(root_is_directory env \<and> records env = rs @ r # rs' \<and>
    process_records env (initial_state env prior) rs = Inr st \<and>
    \<not> (incremental env \<and> make_item_id r \<in> existing_parquet_ids st) \<and>
    \<not> copy_from_fs env DataAsset (relative_path r) \<longrightarrow>
      build_items_and_collection env prior = Inl (CopyFailed (relative_path r))) \<and>
   (root_is_directory env \<and> records env \<noteq> [] \<and>
    (\<forall>x \<in> set (records env). copy_from_fs env DataAsset (relative_path x)) \<longrightarrow>
      (\<exists>st'. build_items_and_collection env prior = Inr st')) \<and>
   (\<not> copy_from_fs env MetadataAsset (path_parent (relative_path r) @ [''metadata.json'']) \<longrightarrow>
      metadata_catalog (process_metadata env r item_id st) = metadata_catalog st) \<and>
   (\<not> copy_from_fs env PlotAsset (path_parent (relative_path r) @ [name]) \<longrightarrow>
      plots_catalog (process_plots env r item_id (before @ (is_file, name) # after) st) =
        plots_catalog (process_plots env r item_id (before @ after) st) \<and>
      existing_plot_ids (process_plots env r item_id (before @ (is_file, name) # after) st) =
        existing_plot_ids (process_plots env r item_id (before @ after) st)) \<and>
   (\<not> (incremental env \<and> make_item_id r \<in> existing_parquet_ids st) \<and>
    copy_from_fs env DataAsset (relative_path r) \<longrightarrow>
      (\<exists>st'. process_record env st r = Inr st' \<and>
         parquet_catalog st' = parquet_catalog st @ [final_id env (make_item_id r)])) \<and>
   (\<not> (incremental env \<and> make_item_id r \<in> existing_parquet_ids st) \<and>
    copy_from_fs env DataAsset (relative_path r) \<and>
    \<not> copy_from_fs env MetadataAsset (path_parent (relative_path r) @ [''metadata.json'']) \<longrightarrow>
      (\<exists>st'. process_record env st r = Inr st' \<and>
         metadata_catalog st' = metadata_catalog st \<and>
         plots_catalog st' =
           plots_catalog (process_plots env r (make_item_id r)
             (if plots_prefix env then plot_infos env (path_parent (relative_path r)) else [])
             st)))"
proof (intro conjI impI)
  assume a: "root_is_directory env \<and> records env = rs @ r # rs' \<and>
    process_records env (initial_state env prior) rs = Inr st \<and>
    \<not> (incremental env \<and> make_item_id r \<in> existing_parquet_ids st) \<and>
    \<not> copy_from_fs env DataAsset (relative_path r)"
  then have "process_records env (initial_state env prior) (rs @ r # rs') =
      Inl (CopyFailed (relative_path r))"
    by (intro process_records_fatal) auto
  with a show "build_items_and_collection env prior = Inl (CopyFailed (relative_path r))"
    by (simp add: build_items_and_collection_def)
next
  assume "root_is_directory env \<and> records env \<noteq> [] \<and>
    (\<forall>x \<in> set (records env). copy_from_fs env DataAsset (relative_path x))"
  then show "\<exists>st'. build_items_and_collection env prior = Inr st'"
    using process_records_total [of "records env" env "initial_state env prior"]
    by (simp add: build_items_and_collection_def)
next
  assume "\<not> copy_from_fs env MetadataAsset (path_parent (relative_path r) @ [''metadata.json''])"
  then show "metadata_catalog (process_metadata env r item_id st) = metadata_catalog st"
    by (simp add: process_metadata_def log_copy_def Let_def)
next
  assume f: "\<not> copy_from_fs env PlotAsset (path_parent (relative_path r) @ [name])"
  from process_plots_failed_entry [OF f]
  show "plots_catalog (process_plots env r item_id (before @ (is_file, name) # after) st) =
        plots_catalog (process_plots env r item_id (before @ after) st)"
    by blast
  from process_plots_failed_entry [OF f]
  show "existing_plot_ids (process_plots env r item_id (before @ (is_file, name) # after) st) =
        existing_plot_ids (process_plots env r item_id (before @ after) st)"
    by blast
next
  assume "\<not> (incremental env \<and> make_item_id r \<in> existing_parquet_ids st) \<and>
    copy_from_fs env DataAsset (relative_path r)"
  then show "\<exists>st'. process_record env st r = Inr st' \<and>
         parquet_catalog st' = parquet_catalog st @ [final_id env (make_item_id r)]"
    by (intro process_record_catalogs_item) auto
next
  assume "\<not> (incremental env \<and> make_item_id r \<in> existing_parquet_ids st) \<and>
    copy_from_fs env DataAsset (relative_path r) \<and>
    \<not> copy_from_fs env MetadataAsset (path_parent (relative_path r) @ [''metadata.json''])"
  then show "\<exists>st'. process_record env st r = Inr st' \<and>
         metadata_catalog st' = metadata_catalog st \<and>
         plots_catalog st' =
           plots_catalog (process_plots env r (make_item_id r)
             (if plots_prefix env then plot_infos env (path_parent (relative_path r)) else [])
             st)"
    by (intro process_record_metadata_failed) auto
qed

theorem copy_failure_fatality_witness:
  "build_items_and_collection data_fails_env no_prior = Inl (CopyFailed example_path) \<and>
   (\<exists>st'. build_items_and_collection companions_fail_env no_prior = Inr st') \<and>
   metadata_catalog (process_metadata companions_fail_env example_record ''20250102T03''
                       empty_state) = [] \<and>
   plots_catalog (process_plots one_plot_fails_env example_record ''20250102T03''
                    [(True, ''a.png''), (True, ''b.png''), (True, ''c.png'')] empty_state) =
     [''20250102T03-plot-a'', ''20250102T03-plot-c''] \<and>
   (\<exists>st'. process_record companions_fail_env empty_state example_record = Inr st' \<and>
          parquet_catalog st' = [''20250102T03''] \<and> metadata_catalog st' = [] \<and>
          plots_catalog st' = [])"
proof -
  have f: "root_is_directory data_fails_env \<and>
      records data_fails_env = [] @ example_record # [] \<and>
      process_records data_fails_env (initial_state data_fails_env no_prior) [] =
        Inr (initial_state data_fails_env no_prior) \<and>
      \<not> (incremental data_fails_env \<and>
         make_item_id example_record \<in>
           existing_parquet_ids (initial_state data_fails_env no_prior)) \<and>
      \<not> copy_from_fs data_fails_env DataAsset (relative_path example_record)"
    by (simp add: data_fails_env_def companions_fail_env_def)
  have g: "root_is_directory companions_fail_env \<and> records companions_fail_env \<noteq> [] \<and>
      (\<forall>x \<in> set (records companions_fail_env).
         copy_from_fs companions_fail_env DataAsset (relative_path x))"
    by (simp add: companions_fail_env_def)
  have m: "\<not> copy_from_fs companions_fail_env MetadataAsset
      (path_parent (relative_path example_record) @ [''metadata.json''])"
    by (simp add: companions_fail_env_def)
  have p: "\<not> copy_from_fs one_plot_fails_env PlotAsset
      (path_parent (relative_path example_record) @ [''b.png''])"
    by (simp add: one_plot_fails_env_def example_record_def example_path_def path_parent_def
        path_name_def is_root_def)
  have d: "\<not> (incremental companions_fail_env \<and>
        make_item_id example_record \<in> existing_parquet_ids empty_state) \<and>
      copy_from_fs companions_fail_env DataAsset (relative_path example_record)"
    by (simp add: companions_fail_env_def)
  have dm: "\<not> (incremental companions_fail_env \<and>
        make_item_id example_record \<in> existing_parquet_ids empty_state) \<and>
      copy_from_fs companions_fail_env DataAsset (relative_path example_record) \<and>
      \<not> copy_from_fs companions_fail_env MetadataAsset
        (path_parent (relative_path example_record) @ [''metadata.json''])"
    by (simp add: companions_fail_env_def)
  have id: "make_item_id example_record = ''20250102T03''"
    by (simp add: make_item_id_def example_record_def)
  have rest: "plots_catalog (process_plots one_plot_fails_env example_record ''20250102T03''
      ([(True, ''a.png'')] @ [(True, ''c.png'')]) empty_state) =
      [''20250102T03-plot-a'', ''20250102T03-plot-c'']"
    by (simp add: one_plot_fails_env_def example_record_def example_path_def path_parent_def
        path_name_def is_root_def empty_state_def log_copy_def final_id_def Let_def
        lower_def lower_char_def suffix_to_prefix name_stem_def rfind_def)
  have none: "plots_catalog (process_plots companions_fail_env example_record
      (make_item_id example_record)
      (if plots_prefix companions_fail_env
       then plot_infos companions_fail_env (path_parent (relative_path example_record))
       else []) empty_state) = []"
    by (simp add: companions_fail_env_def empty_state_def log_copy_def Let_def)
  have pc: "parquet_catalog empty_state @
      [final_id companions_fail_env (make_item_id example_record)] = [''20250102T03'']"
    by (simp add: id empty_state_def final_id_def companions_fail_env_def)
  have mc: "metadata_catalog empty_state = []"
    by (simp add: empty_state_def)
  note c1 = copy_failure_fatality [where env = data_fails_env and rs = "[]"
      and r = example_record and rs' = "[]" and prior = no_prior
      and st = "initial_state data_fails_env no_prior", THEN conjunct1, THEN mp, OF f]
  note spec = copy_failure_fatality [where env = companions_fail_env and prior = no_prior
      and r = example_record and item_id = "''20250102T03''" and st = empty_state]
  note c2 = spec [THEN conjunct2, THEN conjunct1, THEN mp, OF g]
  note c3 = spec [THEN conjunct2, THEN conjunct2, THEN conjunct1, THEN mp, OF m]
  note c4 = copy_failure_fatality [where env = one_plot_fails_env and r = example_record
      and item_id = "''20250102T03''" and st = empty_state and name = "''b.png''"
      and is_file = True and before = "[(True, ''a.png'')]" and after = "[(True, ''c.png'')]",
      THEN conjunct2, THEN conjunct2, THEN conjunct2, THEN conjunct1, THEN mp, OF p]
  note c5 = spec [THEN conjunct2, THEN conjunct2, THEN conjunct2, THEN conjunct2,
      THEN conjunct1, THEN mp, OF d]
  note c6 = spec [THEN conjunct2, THEN conjunct2, THEN conjunct2, THEN conjunct2,
      THEN conjunct2, THEN mp, OF dm]
  from c6 obtain st' where r: "process_record companions_fail_env empty_state example_record = Inr st'"
    and r2: "metadata_catalog st' = metadata_catalog empty_state"
    and r3: "plots_catalog st' = plots_catalog (process_plots companions_fail_env example_record
      (make_item_id example_record)
      (if plots_prefix companions_fail_env
       then plot_infos companions_fail_env (path_parent (relative_path example_record))
       else []) empty_state)"
    by blast
  from c5 r have r1: "parquet_catalog st' = parquet_catalog empty_state @
      [final_id companions_fail_env (make_item_id example_record)]"
    by auto
  from r r1 r2 r3 have last: "\<exists>st'. process_record companions_fail_env empty_state example_record = Inr st' \<and>
          parquet_catalog st' = [''20250102T03''] \<and> metadata_catalog st' = [] \<and>
          plots_catalog st' = []"
    unfolding pc mc none by blast
  have c3': "metadata_catalog (process_metadata companions_fail_env example_record
      ''20250102T03'' empty_state) = []"
    using c3 mc by simp
  have c4': "plots_catalog (process_plots one_plot_fails_env example_record ''20250102T03''
      [(True, ''a.png''), (True, ''b.png''), (True, ''c.png'')] empty_state) =
      [''20250102T03-plot-a'', ''20250102T03-plot-c'']"
    using c4 [THEN conjunct1] rest by simp
  have c1': "build_items_and_collection data_fails_env no_prior = Inl (CopyFailed example_path)"
    using c1 by (simp add: example_record_def)
  from c1' c2 c3' c4' last show ?thesis
    by blast
qed

text \<open>
  C1: an incremental run repeated over an unchanged root is to pass over every asset
  already cataloged, copying nothing and adding no item. The builder does not keep to
  this when the item-override document sets \<open>id\<close>. The catalog then holds the overriding
  identifier, while the set of known data identifiers receives the generated one and the
  next run compares the generated identifier with the identifiers read from the catalog.
  The first run over the single partition \<open>year=2025/month=01/day=02/hour=03\<close> with the
  override \<open>id = fixed\<close> leaves the data catalog \<open>[fixed]\<close>; the second run over the same
  root, started from that catalog, does not pass the partition over: it copies the data
  file again and adds a second item \<open>fixed\<close>. The metadata and plot blocks record the
  identifier of the item they built, and the comment at the skip reads
  \<open>Asset already cataloged; skip heavy copy and rebuild\<close>.
\<close>

theorem rerun_with_id_override_duplicates:
  "build_items_and_collection override_id_env no_prior =
     Inr \<lparr>parquet_catalog = [''fixed''], metadata_catalog = [], plots_catalog = [],
          existing_parquet_ids = {''20250102T03''}, existing_metadata_ids = {},
          existing_plot_ids = {}, copy_log = [(DataAsset, example_path, True)]\<rparr> \<and>
   build_items_and_collection override_id_env
     \<lparr>parquet_item_ids = [''fixed''], metadata_item_ids = [], plot_item_ids = []\<rparr> =
     Inr \<lparr>parquet_catalog = [''fixed'', ''fixed''], metadata_catalog = [], plots_catalog = [],
          existing_parquet_ids = {''20250102T03'', ''fixed''}, existing_metadata_ids = {},
          existing_plot_ids = {}, copy_log = [(DataAsset, example_path, True)]\<rparr>"
  by (simp add: build_items_and_collection_def override_id_env_def incremental_env_def
      no_prior_def initial_state_def example_record_def example_path_def process_record_def
      make_item_id_def process_metadata_def log_copy_def final_id_def bind_err_def Let_def)

text \<open>
  Without an item override that replaces the item \<open>id\<close> the generated identifier is the
  cataloged one, and the skip works: let a first incremental run finish, and let a second
  incremental run find the same records under the root (its sidecars, plots, copy
  outcomes and overrides may differ). Then the second run finishes with the three
  sub-catalogs holding exactly the identifiers the first run left, in the same order,
  and attempts no copy at all. If the catalogs the first run loaded had no identifier
  twice, neither have the catalogs it leaves. In any incremental run a record whose
  generated identifier is in the known data set leaves the state untouched.
\<close>

lemma rerun_without_id_override:
  "(incremental env \<and> override_id env = None \<and>
    build_items_and_collection env prior = Inr first \<and>
    incremental env' \<and> root_is_directory env' \<and> records env' = records env \<longrightarrow>
      (\<exists>second. build_items_and_collection env' (persist first) = Inr second \<and>
             persist second = persist first \<and> copy_log second = []) \<and>
      (distinct (parquet_item_ids prior) \<and> distinct (metadata_item_ids prior) \<and>
       distinct (plot_item_ids prior) \<longrightarrow>
         distinct (parquet_catalog first) \<and> distinct (metadata_catalog first) \<and>
         distinct (plots_catalog first))) \<and>
   (incremental env \<and> make_item_id r \<in> existing_parquet_ids st \<longrightarrow>
      process_record env st r = Inr st)"
proof (intro conjI impI)
  assume a: "incremental env \<and> override_id env = None \<and>
    build_items_and_collection env prior = Inr first \<and>
    incremental env' \<and> root_is_directory env' \<and> records env' = records env"
  then have "build_items_and_collection env' (persist first) =
      Inr (initial_state env' (persist first))"
    by (intro rerun_skips_everything [of env prior]) auto
  moreover from a have "persist (initial_state env' (persist first)) = persist first"
    by (simp add: initial_state_def persist_def)
  moreover from a have "copy_log (initial_state env' (persist first)) = []"
    by (simp add: initial_state_def)
  ultimately show "\<exists>second. build_items_and_collection env' (persist first) = Inr second \<and>
      persist second = persist first \<and> copy_log second = []"
    by blast
next
  assume "incremental env \<and> override_id env = None \<and>
    build_items_and_collection env prior = Inr first \<and>
    incremental env' \<and> root_is_directory env' \<and> records env' = records env"
    and "distinct (parquet_item_ids prior) \<and> distinct (metadata_item_ids prior) \<and>
       distinct (plot_item_ids prior)"
  then have d: "distinct (parquet_catalog first) \<and> distinct (metadata_catalog first) \<and>
         distinct (plots_catalog first)"
    by (intro first_run_distinct [of env prior]) auto
  from d show "distinct (parquet_catalog first)" by simp
  from d show "distinct (metadata_catalog first)" by simp
  from d show "distinct (plots_catalog first)" by simp
next
  assume "incremental env \<and> make_item_id r \<in> existing_parquet_ids st"
  then show "process_record env st r = Inr st"
    by (simp add: process_record_skip)
qed

lemma rerun_without_id_override_example:
  "build_items_and_collection incremental_env no_prior = Inr first_run_state \<and>
   (\<exists>second. build_items_and_collection rerun_env
             (persist first_run_state) = Inr second \<and>
          persist second = persist first_run_state \<and> copy_log second = []) \<and>
   distinct (parquet_catalog first_run_state) \<and> distinct (metadata_catalog first_run_state) \<and>
   distinct (plots_catalog first_run_state) \<and>
   process_record incremental_env first_run_state example_record = Inr first_run_state"
proof -
  have h: "incremental incremental_env \<and> override_id incremental_env = None \<and>
      build_items_and_collection incremental_env no_prior = Inr first_run_state \<and>
      incremental rerun_env \<and>
      root_is_directory rerun_env \<and>
      records rerun_env = records incremental_env"
    by (simp add: first_run_evaluated) (simp add: incremental_env_def rerun_env_def companions_fail_env_def)
  have d: "distinct (parquet_item_ids no_prior) \<and> distinct (metadata_item_ids no_prior) \<and>
      distinct (plot_item_ids no_prior)"
    by (simp add: no_prior_def)
  have k: "incremental incremental_env \<and>
      make_item_id example_record \<in> existing_parquet_ids first_run_state"
    by (simp add: incremental_env_def first_run_state_def make_item_id_def example_record_def)
  note spec = rerun_without_id_override [where env = incremental_env and prior = no_prior
      and first = first_run_state and env' = rerun_env
      and r = example_record and st = first_run_state]
  note c1 = spec [THEN conjunct1, THEN mp, OF h]
  note c2 = c1 [THEN conjunct2, THEN mp, OF d]
  note c3 = spec [THEN conjunct2, THEN mp, OF k]
  from c1 [THEN conjunct1] c2 c3 first_run_evaluated show ?thesis
    by simp
qed

end
